theory Spec2Isabelle
  imports Main
begin

section \<open>Python values and exceptions\<close>

text \<open>
  Metadata values are Python strings or \<^verbatim>\<open>None\<close>. The source tests them for truth
  (\<^verbatim>\<open>if value\<close>, \<^verbatim>\<open>value or ''\<close>): \<^verbatim>\<open>None\<close> and the empty string are false.
\<close>

datatype pyval = PNone | PStr string

fun truthy :: "pyval \<Rightarrow> bool" where
  "truthy PNone = False"
| "truthy (PStr s) = (s \<noteq> [])"

definition py_or :: "pyval \<Rightarrow> pyval \<Rightarrow> pyval" where
  "py_or a b = (if truthy a then a else b)"

text \<open>
  Every exception the modelled functions raise or catch is a value of this type. The last
  three are the exceptions of Python that derive from \<^verbatim>\<open>BaseException\<close> and not from
  \<^verbatim>\<open>Exception\<close>: \<^verbatim>\<open>except Exception\<close> catches all the others and lets these pass.
\<close>

datatype error =
    RecursionError
  | AttributeError
  | KeyError
  | TypeError
  | AssertionError string
  | PyException string
  | DoesNotExist
  | MultipleObjectsReturned
  | OtherError string
  | KeyboardInterrupt
  | SystemExit
  | GeneratorExit

definition is_Exception :: "error \<Rightarrow> bool" where
  "is_Exception e = (e \<noteq> KeyboardInterrupt \<and> e \<noteq> SystemExit \<and> e \<noteq> GeneratorExit)"

section \<open>Fields, options and metadata definitions\<close>

text \<open>
  \<^verbatim>\<open>populate_from\<close> of a field is \<^verbatim>\<open>NotSet\<close>, a callable (called with a metadata
  instance or \<^verbatim>\<open>None\<close>), a \<^verbatim>\<open>Literal\<close>, or anything else, which the source takes for
  the name of another field.
\<close>

datatype 'i populate_from =
    NotSet
  | Callable "'i option \<Rightarrow> pyval"
  | Literal pyval
  | FieldName string

text \<open>
  The attributes of \<^verbatim>\<open>MetadataField\<close> the source reads. The class is declared in
  \<^verbatim>\<open>djangoseo.fields\<close>; its methods \<^verbatim>\<open>clean\<close> and \<^verbatim>\<open>render\<close> are fields of the record.
\<close>

record 'i metadata_field =
  creation_counter :: nat
  populate_from :: "'i populate_from"
  head :: bool
  clean :: "pyval \<Rightarrow> pyval"
  render :: "pyval \<Rightarrow> string"

text \<open>
  The part of \<^verbatim>\<open>Options\<close> (\<^verbatim>\<open>_meta\<close>) the source reads. \<^verbatim>\<open>elements\<close> is an
  \<^verbatim>\<open>OrderedDict\<close> and \<^verbatim>\<open>groups\<close> a dict: association lists, looked up with \<open>map_of\<close>;
  \<^verbatim>\<open>backends\<close> is the tuple of backend names.
\<close>

record 'i options =
  use_cache :: bool
  use_sites :: bool
  use_i18n :: bool
  use_subdomains :: bool
  elements :: "(string \<times> 'i metadata_field) list"
  groups :: "(string \<times> string list) list"
  backends :: "string list"

text \<open>
  What \<^verbatim>\<open>FormattedMetadata\<close> reads of its \<^verbatim>\<open>metadata\<close> argument:
  \<^verbatim>\<open>metadata.__class__.__name__\<close> and \<^verbatim>\<open>metadata._meta\<close>.
\<close>

record 'i metadata =
  class_name :: string
  meta :: "'i options"

record site =
  domain :: string

section \<open>FormattedMetadata\<close>

text \<open>
  \<^verbatim>\<open>instances\<close> is either a generator (\<^verbatim>\<open>_get_instances\<close>), which hands out each of its
  items once, or a list (\<^verbatim>\<open>get_linked_metadata\<close>), which every \<^verbatim>\<open>for\<close> loop reads from its
  start. A generator is the list of the items it has not handed out yet.
\<close>

datatype 'i inst_source = Generator "'i list" | Sequence "'i list"

record 'i formatted_metadata =
  fm_metadata :: "'i metadata"
  cache_prefix :: "string option"
  instances_original :: "'i inst_source"
  instances_cache :: "'i list"

text \<open>
  \<^verbatim>\<open>hashlib.md5(...).hexdigest()\<close> and \<^verbatim>\<open>iri_to_uri\<close> are library functions: parameters
  \<open>md5hex\<close> and \<open>iri\<close>. \<^verbatim>\<open>'.'.join(bits)\<close> raises \<^verbatim>\<open>TypeError\<close> when an item is \<^verbatim>\<open>None\<close>.
\<close>

fun intercalate :: "string \<Rightarrow> string list \<Rightarrow> string" where
  "intercalate sep [] = []"
| "intercalate sep [x] = x"
| "intercalate sep (x # y # ys) = x @ sep @ intercalate sep (y # ys)"

definition str_join :: "string \<Rightarrow> string option list \<Rightarrow> error + string" where
  "str_join sep bits =
     (if None \<in> set bits then Inl TypeError else Inr (intercalate sep (map the bits)))"

definition hexpath_of ::
  "(string \<Rightarrow> string) \<Rightarrow> (string \<Rightarrow> string) \<Rightarrow> 'i options \<Rightarrow> site option \<Rightarrow> string \<Rightarrow> string" where
  "hexpath_of md5hex iri opts site_arg path =
     (case site_arg of
        Some s \<Rightarrow> if use_sites opts then md5hex (iri (domain s @ path)) else md5hex (iri path)
      | None \<Rightarrow> md5hex (iri path))"

definition prefix_bits ::
  "(string \<Rightarrow> string) \<Rightarrow> (string \<Rightarrow> string) \<Rightarrow> 'i metadata \<Rightarrow> string \<Rightarrow> site option \<Rightarrow>
   string option \<Rightarrow> string option \<Rightarrow> string option list" where
  "prefix_bits md5hex iri md path site_arg language subdomain =
     [Some ''djangoseo'', Some (class_name md),
      Some (hexpath_of md5hex iri (meta md) site_arg path)]
     @ (if use_i18n (meta md) then [language] else [])
     @ (if use_subdomains (meta md) \<and> subdomain \<noteq> None then [subdomain] else [])"

definition FormattedMetadata_init ::
  "(string \<Rightarrow> string) \<Rightarrow> (string \<Rightarrow> string) \<Rightarrow> 'i metadata \<Rightarrow> 'i inst_source \<Rightarrow> string \<Rightarrow>
   site option \<Rightarrow> string option \<Rightarrow> string option \<Rightarrow> error + 'i formatted_metadata" where
  "FormattedMetadata_init md5hex iri md instances path site_arg language subdomain =
     (if use_cache (meta md) then
        (case str_join ''.'' (prefix_bits md5hex iri md path site_arg language subdomain) of
           Inl e \<Rightarrow> Inl e
         | Inr p \<Rightarrow> Inr \<lparr>fm_metadata = md, cache_prefix = Some p,
                         instances_original = instances, instances_cache = []\<rparr>)
      else Inr \<lparr>fm_metadata = md, cache_prefix = None,
                instances_original = instances, instances_cache = []\<rparr>)"

subsection \<open>The instance generator\<close>

text \<open>
  A \<^verbatim>\<open>for\<close> loop over \<^verbatim>\<open>self.__instances()\<close> whose body may return: \<open>body i = Some r\<close> is
  a \<^verbatim>\<open>return r\<close> at instance \<open>i\<close>, \<open>None\<close> goes on to the next instance. \<open>replay\<close> is the
  generator's first loop (over \<^verbatim>\<open>__instances_cache\<close>), \<open>draw\<close> its second (over
  \<^verbatim>\<open>__instances_original\<close>, each item appended to the cache before it is yielded). Both
  return the loop's result and the instances yielded; \<open>draw\<close> also returns the items not
  drawn.
\<close>

fun replay :: "('i \<Rightarrow> 'r option) \<Rightarrow> 'i list \<Rightarrow> 'r option \<times> 'i list" where
  "replay body [] = (None, [])"
| "replay body (i # rest) =
     (case body i of
        Some r \<Rightarrow> (Some r, [i])
      | None \<Rightarrow> (case replay body rest of (res, ys) \<Rightarrow> (res, i # ys)))"

fun draw :: "('i \<Rightarrow> 'r option) \<Rightarrow> 'i list \<Rightarrow> 'r option \<times> 'i list \<times> 'i list" where
  "draw body [] = (None, [], [])"
| "draw body (i # rest) =
     (case body i of
        Some r \<Rightarrow> (Some r, [i], rest)
      | None \<Rightarrow> (case draw body rest of (res, ys, left) \<Rightarrow> (res, i # ys, left)))"

definition for_instances ::
  "('i \<Rightarrow> 'r option) \<Rightarrow> 'i formatted_metadata \<Rightarrow> 'r option \<times> 'i list \<times> 'i formatted_metadata" where
  "for_instances body fm =
     (case replay body (instances_cache fm) of
        (Some r, ys) \<Rightarrow> (Some r, ys, fm)
      | (None, ys) \<Rightarrow>
          (case instances_original fm of
             Generator items \<Rightarrow>
               (case draw body items of
                  (res, zs, left) \<Rightarrow>
                    (res, ys @ zs,
                     fm\<lparr>instances_original := Generator left,
                        instances_cache := instances_cache fm @ zs\<rparr>))
           | Sequence items \<Rightarrow>
               (case draw body items of
                  (res, zs, left) \<Rightarrow>
                    (res, ys @ zs, fm\<lparr>instances_cache := instances_cache fm @ zs\<rparr>))))"

text \<open>A loop that never returns early: one whole iteration of \<^verbatim>\<open>__instances()\<close>.\<close>

definition iterate_instances :: "'i formatted_metadata \<Rightarrow> 'i list \<times> 'i formatted_metadata" where
  "iterate_instances fm =
     (case for_instances (\<lambda>i. (None :: unit option)) fm of (res, ys, fm') \<Rightarrow> (ys, fm'))"

subsection \<open>_resolve_value\<close>

text \<open>
  \<open>rv i name\<close> is \<^verbatim>\<open>instance._resolve_value(name)\<close> of a backend instance (declared in
  \<^verbatim>\<open>djangoseo.backends\<close>): a parameter. The first argument of \<open>resolve_value\<close> is the
  number of nested calls Python's recursion limit still allows.
\<close>

definition nonempty :: "('i \<Rightarrow> string \<Rightarrow> pyval) \<Rightarrow> string \<Rightarrow> 'i \<Rightarrow> pyval option" where
  "nonempty rv name i = (let v = rv i name in if truthy v then Some v else None)"

fun resolve_value ::
  "nat \<Rightarrow> ('i \<Rightarrow> string \<Rightarrow> pyval) \<Rightarrow> 'i formatted_metadata \<Rightarrow> string \<Rightarrow>
   (error + pyval) \<times> 'i formatted_metadata" where
  "resolve_value 0 rv fm name = (Inl RecursionError, fm)"
| "resolve_value (Suc depth) rv fm name =
     (case for_instances (nonempty rv name) fm of
        (Some v, ys, fm') \<Rightarrow> (Inr v, fm')
      | (None, ys, fm') \<Rightarrow>
          (case map_of (elements (meta (fm_metadata fm'))) name of
             None \<Rightarrow> (Inr PNone, fm')
           | Some el \<Rightarrow>
               (case populate_from el of
                  Callable f \<Rightarrow> (Inr (f None), fm')
                | Literal v \<Rightarrow> (Inr v, fm')
                | FieldName n \<Rightarrow> resolve_value depth rv fm' n
                | NotSet \<Rightarrow> (Inr PNone, fm'))))"

definition first_nonempty :: "('i \<Rightarrow> string \<Rightarrow> pyval) \<Rightarrow> string \<Rightarrow> 'i list \<Rightarrow> pyval option" where
  "first_nonempty rv name insts = find truthy (map (\<lambda>i. rv i name) insts)"

definition backend_order :: "'i formatted_metadata \<Rightarrow> 'i list" where
  "backend_order fm =
     (case instances_original fm of
        Generator items \<Rightarrow> instances_cache fm @ items
      | Sequence items \<Rightarrow> items)"

inductive prefixes_of :: "'a list \<Rightarrow> 'a list \<Rightarrow> bool" for xs :: "'a list" where
  prefixes_Nil: "prefixes_of xs []"
| prefixes_snoc: "prefixes_of xs c \<Longrightarrow> prefixes_of xs (c @ take k xs)"

definition cache_ok :: "'i formatted_metadata \<Rightarrow> bool" where
  "cache_ok fm =
     (case instances_original fm of
        Generator items \<Rightarrow> True
      | Sequence items \<Rightarrow> prefixes_of items (instances_cache fm))"

text \<open>
  The same resolution without the generator and its cache, over a plain list of
  instances: used to relate the results of \<open>resolve_value\<close> in different states.
\<close>

fun resolve_over ::
  "nat \<Rightarrow> ('i \<Rightarrow> string \<Rightarrow> pyval) \<Rightarrow> 'i metadata \<Rightarrow> 'i list \<Rightarrow> string \<Rightarrow> error + pyval" where
  "resolve_over 0 rv md insts name = Inl RecursionError"
| "resolve_over (Suc depth) rv md insts name =
     (case first_nonempty rv name insts of
        Some v \<Rightarrow> Inr v
      | None \<Rightarrow>
          (case map_of (elements (meta md)) name of
             None \<Rightarrow> Inr PNone
           | Some el \<Rightarrow>
               (case populate_from el of
                  Callable f \<Rightarrow> Inr (f None)
                | Literal v \<Rightarrow> Inr v
                | FieldName n \<Rightarrow> resolve_over depth rv md insts n
                | NotSet \<Rightarrow> Inr PNone)))"

text \<open>
  The chain of \<^verbatim>\<open>populate_from\<close> field names that starts at \<open>name\<close> ends within
  \<open>steps\<close> steps: at a name that is no element, or at an element whose \<^verbatim>\<open>populate_from\<close>
  is not a field name.
\<close>

fun chain_ends :: "nat \<Rightarrow> (string \<times> 'i metadata_field) list \<Rightarrow> string \<Rightarrow> bool" where
  "chain_ends steps els name =
     (case map_of els name of
        None \<Rightarrow> True
      | Some el \<Rightarrow>
          (case populate_from el of
             FieldName n \<Rightarrow> (case steps of 0 \<Rightarrow> False | Suc k \<Rightarrow> chain_ends k els n)
           | _ \<Rightarrow> True))"

subsection \<open>BoundMetadataField\<close>

record 'i bound_field =
  bf_field :: "'i metadata_field"
  bf_value :: pyval

definition BoundMetadataField :: "'i metadata_field \<Rightarrow> pyval \<Rightarrow> 'i bound_field" where
  "BoundMetadataField field v =
     \<lparr>bf_field = field, bf_value = (if truthy v then clean field v else PNone)\<rparr>"

text \<open>\<^verbatim>\<open>mark_safe\<close> only marks its string; \<^verbatim>\<open>__str__\<close> is \<^verbatim>\<open>make_safe\<close>.\<close>

definition make_safe :: "'i bound_field \<Rightarrow> string" where
  "make_safe bf = (if truthy (bf_value bf) then render (bf_field bf) (bf_value bf) else [])"

subsection \<open>The cache and attribute access\<close>

text \<open>
  Django's cache as a map from keys to values; \<^verbatim>\<open>cache.get\<close> answers \<^verbatim>\<open>None\<close> for a key
  it does not hold. Expiry and eviction are outside the model.
\<close>

type_synonym cache = "string \<Rightarrow> pyval option"

definition cache_get :: "cache \<Rightarrow> string \<Rightarrow> pyval" where
  "cache_get c k = (case c k of None \<Rightarrow> PNone | Some v \<Rightarrow> v)"

definition cache_set :: "cache \<Rightarrow> string \<Rightarrow> pyval \<Rightarrow> cache" where
  "cache_set c k v = c(k \<mapsto> v)"

text \<open>
  \<^verbatim>\<open>str.strip()\<close>. A \<open>char\<close> is a code point below 256; the white space of Python
  among these is 9 to 13, 28 to 32, U+0085 and U+00A0.
\<close>

definition py_isspace :: "char \<Rightarrow> bool" where
  "py_isspace c = (of_char c \<in> {9, 10, 11, 12, 13, 28, 29, 30, 31, 32, 133, 160 :: nat})"

definition py_strip :: "string \<Rightarrow> string" where
  "py_strip s = rev (dropWhile py_isspace (rev (dropWhile py_isspace s)))"

text \<open>
  The generator expression of the group branch: for each member \<^verbatim>\<open>f\<close>, in order,
  \<^verbatim>\<open>elements[f]\<close> (a \<^verbatim>\<open>KeyError\<close> when \<^verbatim>\<open>f\<close> is no element), then
  \<^verbatim>\<open>self._resolve_value(f)\<close>, then the text of the bound field.
\<close>

fun render_group ::
  "nat \<Rightarrow> ('i \<Rightarrow> string \<Rightarrow> pyval) \<Rightarrow> 'i formatted_metadata \<Rightarrow> string list \<Rightarrow>
   (error + string list) \<times> 'i formatted_metadata" where
  "render_group depth rv fm [] = (Inr [], fm)"
| "render_group depth rv fm (f # fs) =
     (case map_of (elements (meta (fm_metadata fm))) f of
        None \<Rightarrow> (Inl KeyError, fm)
      | Some el \<Rightarrow>
          (case resolve_value depth rv fm f of
             (Inl e, fm') \<Rightarrow> (Inl e, fm')
           | (Inr v, fm') \<Rightarrow>
               (case render_group depth rv fm' fs of
                  (Inl e, fm'') \<Rightarrow> (Inl e, fm'')
                | (Inr ls, fm'') \<Rightarrow> (Inr (make_safe (BoundMetadataField el v) # ls), fm''))))"

text \<open>What \<^verbatim>\<open>__getattr__\<close> returns: a bound field for an element, text or \<^verbatim>\<open>None\<close> for a group.\<close>

datatype 'i attr = Bound "'i bound_field" | GroupText pyval

definition cache_key_of :: "'i formatted_metadata \<Rightarrow> string \<Rightarrow> string option" where
  "cache_key_of fm name =
     (case cache_prefix fm of
        Some p \<Rightarrow> if p \<noteq> [] then Some (p @ ''.'' @ name) else None
      | None \<Rightarrow> None)"

definition cache_store :: "cache \<Rightarrow> string option \<Rightarrow> pyval \<Rightarrow> cache" where
  "cache_store c cache_key v =
     (case cache_key of Some k \<Rightarrow> cache_set c k (py_or v (PStr [])) | None \<Rightarrow> c)"

text \<open>
  \<^verbatim>\<open>FormattedMetadata.__getattr__\<close>. The state is the object (its instance cache) and
  Django's cache; \<open>depth\<close> is the recursion depth left for \<^verbatim>\<open>_resolve_value\<close>.
\<close>

definition getattr ::
  "nat \<Rightarrow> ('i \<Rightarrow> string \<Rightarrow> pyval) \<Rightarrow> 'i formatted_metadata \<Rightarrow> cache \<Rightarrow> string \<Rightarrow>
   (error + 'i attr) \<times> 'i formatted_metadata \<times> cache" where
  "getattr depth rv fm c name =
     (let cache_key = cache_key_of fm name;
          cached = (case cache_key of Some k \<Rightarrow> cache_get c k | None \<Rightarrow> PNone);
          opts = meta (fm_metadata fm)
      in case map_of (groups opts) name of
           Some members \<Rightarrow>
             if cached \<noteq> PNone then (Inr (GroupText (py_or cached PNone)), fm, c)
             else
               (case render_group depth rv fm members of
                  (Inl e, fm') \<Rightarrow> (Inl e, fm', c)
                | (Inr ls, fm') \<Rightarrow>
                    (let v = PStr (py_strip (intercalate [CHR 0x0A] ls))
                     in (Inr (GroupText (py_or v PNone)), fm', cache_store c cache_key v)))
         | None \<Rightarrow>
             (case map_of (elements opts) name of
                Some el \<Rightarrow>
                  if cached \<noteq> PNone
                  then (Inr (Bound (BoundMetadataField el (py_or cached PNone))), fm, c)
                  else
                    (case resolve_value depth rv fm name of
                       (Inl e, fm') \<Rightarrow> (Inl e, fm', c)
                     | (Inr v, fm') \<Rightarrow>
                         (Inr (Bound (BoundMetadataField el v)), fm', cache_store c cache_key v))
              | None \<Rightarrow> (Inl AttributeError, fm, c)))"

subsection \<open>__str__\<close>




subsection \<open>The cache prefix, as the claim describes it\<close>

text \<open>
  The bits after the digest: the language when \<^verbatim>\<open>use_i18n\<close> is set, then the subdomain
  when \<^verbatim>\<open>use_subdomains\<close> is set and a subdomain is given. \<open>dotted\<close> is what
  \<^verbatim>\<open>'.'.join\<close> makes of the bits that follow the first one.
\<close>

definition prefix_tail :: "'i options \<Rightarrow> string option \<Rightarrow> string option \<Rightarrow> string list" where
  "prefix_tail opts language subdomain =
     (if use_i18n opts then (case language of Some l \<Rightarrow> [l] | None \<Rightarrow> []) else [])
     @ (if use_subdomains opts then (case subdomain of Some s \<Rightarrow> [s] | None \<Rightarrow> []) else [])"

definition dotted :: "string list \<Rightarrow> string" where
  "dotted xs = concat (map ((@) ''.'') xs)"


section \<open>Tracked models, metadata rows and redirects\<close>

text \<open>
  What the signal callbacks read of an instance of a tracked model: its content type
  (\<^verbatim>\<open>ContentType.objects.get_for_model\<close>), its primary key \<^verbatim>\<open>pk\<close>, its attribute
  \<^verbatim>\<open>id\<close>, which a model whose primary key has another name does not have, the result
  of \<^verbatim>\<open>get_absolute_url()\<close>, which is \<^verbatim>\<open>AttributeError\<close> for a model without the method
  and may be any other exception, and the flag
  \<^verbatim>\<open>_MetadataFormset__seo_metadata_handled\<close>.
\<close>

datatype 'a attribute = NoAttribute | Value 'a

record tracked =
  t_content_type :: nat
  t_pk :: "int option"
  t_id :: "int option attribute"
  t_url :: "error + string"
  t_handled :: bool

text \<open>\<^verbatim>\<open>not instance.pk\<close> holds for \<^verbatim>\<open>None\<close> and for 0.\<close>

definition pk_truthy :: "int option \<Rightarrow> bool" where
  "pk_truthy pk = (case pk of None \<Rightarrow> False | Some n \<Rightarrow> n \<noteq> 0)"

subsection \<open>Redirects\<close>

text \<open>
  The fields of \<^verbatim>\<open>Redirect\<close> (declared in \<^verbatim>\<open>djangoseo.models\<close>) that the callback
  sets. A table is the list of its rows.
\<close>

record redirect =
  old_path :: string
  new_path :: string
  r_site :: site
  all_subdomains :: bool

text \<open>
  \<^verbatim>\<open>objects.get_or_create(**kwargs)\<close>: the row that matches, a new row when none does,
  \<^verbatim>\<open>MultipleObjectsReturned\<close> when several do. The result is the row, whether it was
  created, and the table.
\<close>

definition get_or_create :: "('r \<Rightarrow> bool) \<Rightarrow> 'r \<Rightarrow> 'r list \<Rightarrow> error + ('r \<times> bool \<times> 'r list)" where
  "get_or_create matches new table =
     (case filter matches table of
        [] \<Rightarrow> Inr (new, True, table @ [new])
      | [r] \<Rightarrow> Inr (r, False, table)
      | r # r' # rs \<Rightarrow> Inl MultipleObjectsReturned)"

text \<open>
  The body of the \<^verbatim>\<open>try\<close> block of \<^verbatim>\<open>_handle_redirects_callback\<close>. \<open>stored\<close> is the
  table of the sender, \<open>current_site\<close> the result of \<^verbatim>\<open>Site.objects.get_current()\<close>.
  \<^verbatim>\<open>instance.id\<close> raises \<^verbatim>\<open>AttributeError\<close> when the instance has no such attribute;
  \<^verbatim>\<open>filter(id=instance.id).first()\<close> is \<^verbatim>\<open>None\<close> when no row is stored, and
  \<^verbatim>\<open>None.get_absolute_url()\<close> raises \<^verbatim>\<open>AttributeError\<close>.
\<close>

definition redirects_try ::
  "tracked list \<Rightarrow> error + site \<Rightarrow> tracked \<Rightarrow> redirect list \<Rightarrow> error + redirect list" where
  "redirects_try stored current_site instance table =
     (case t_url instance of
        Inl e \<Rightarrow> Inl e
      | Inr after \<Rightarrow>
          (case t_id instance of
             NoAttribute \<Rightarrow> Inl AttributeError
           | Value i \<Rightarrow>
               (case find (\<lambda>obj. t_id obj = Value i) stored of
                  None \<Rightarrow> Inl AttributeError
                | Some obj \<Rightarrow>
                    (case t_url obj of
                       Inl e \<Rightarrow> Inl e
                     | Inr before \<Rightarrow>
                         if before \<noteq> after then
                           (case current_site of
                              Inl e \<Rightarrow> Inl e
                            | Inr s \<Rightarrow>
                                (let row = \<lparr>old_path = before, new_path = after, r_site = s,
                                            all_subdomains = True\<rparr>
                                 in case get_or_create (\<lambda>r. r = row) row table of
                                      Inl e \<Rightarrow> Inl e
                                    | Inr (r, created, table') \<Rightarrow> Inr table'))
                         else Inr table))))"

text \<open>
  \<^verbatim>\<open>_handle_redirects_callback\<close>. The state is the redirect table and the log;
  \<^verbatim>\<open>Inl\<close> is an exception that reaches the caller. The handler is
  \<^verbatim>\<open>except Exception\<close>: it logs what derives from \<^verbatim>\<open>Exception\<close> and lets the rest pass.
\<close>

definition handle_redirects_callback ::
  "tracked list \<Rightarrow> error + site \<Rightarrow> tracked \<Rightarrow> redirect list \<times> string list \<Rightarrow>
   error + redirect list \<times> string list" where
  "handle_redirects_callback stored current_site instance st =
     (case st of
        (table, log) \<Rightarrow>
          if \<not> pk_truthy (t_pk instance) then Inr (table, log)
          else
            (case redirects_try stored current_site instance table of
               Inl e \<Rightarrow>
                 if is_Exception e then Inr (table, log @ [''Failed to create new redirect''])
                 else Inl e
             | Inr table' \<Rightarrow> Inr (table', log)))"

subsection \<open>Metadata rows\<close>

text \<open>
  A row of a metadata model: the generic foreign key (\<^verbatim>\<open>_content_type\<close>,
  \<^verbatim>\<open>_object_id\<close>), \<^verbatim>\<open>_path\<close>, and the values of its fields. A table is the list of its
  rows; a row is known by its position.
\<close>

record md_row =
  md_content_type :: nat
  md_object_id :: "int option"
  md_path :: string
  md_values :: "(string \<times> pyval) list"

definition linked :: "nat \<Rightarrow> int option \<Rightarrow> md_row \<Rightarrow> bool" where
  "linked ct pk r = (md_content_type r = ct \<and> md_object_id r = pk)"

text \<open>
  \<^verbatim>\<open>_delete_callback\<close>: \<open>db\<close> maps each metadata model to its table.
\<close>

definition delete_callback :: "'m \<Rightarrow> tracked \<Rightarrow> ('m \<Rightarrow> md_row list) \<Rightarrow> ('m \<Rightarrow> md_row list)" where
  "delete_callback model_class instance db =
     db(model_class :=
          filter (\<lambda>r. \<not> (md_content_type r = t_content_type instance
                          \<and> md_object_id r = t_pk instance))
            (db model_class))"

text \<open>
  Modelled from the spec: \<^verbatim>\<open>get_instances\<close> of the manager of the model-instance
  backend (\<^verbatim>\<open>djangoseo.backends\<close>) is missing from the sources. The spec speaks of the
  rows `at that path': the rows whose \<^verbatim>\<open>_path\<close> is the path, among those that \<open>sel\<close>
  admits, which stands for the site, language and subdomain passed along. The result is
  the positions of the rows, in table order.
\<close>

definition get_instances :: "(md_row \<Rightarrow> bool) \<Rightarrow> string \<Rightarrow> md_row list \<Rightarrow> nat list" where
  "get_instances sel path table =
     filter (\<lambda>i. md_path (table ! i) = path \<and> sel (table ! i)) [0..<length table]"

text \<open>
  The loop of \<^verbatim>\<open>create_metadata_instance\<close> over the rows found at the path.
  \<open>objs ct oid\<close> is \<^verbatim>\<open>md._content_object\<close>: the object the generic foreign key points to,
  or \<^verbatim>\<open>None\<close>. The loop ends by an exception, by the \<^verbatim>\<open>return\<close> in its body, or
  normally with the value of \<^verbatim>\<open>metadata\<close>, the position of a row or \<^verbatim>\<open>None\<close>.
\<close>

datatype loop_end = Raised error | Returned | Finished "nat option"

fun path_loop ::
  "(nat \<Rightarrow> int option \<Rightarrow> tracked option) \<Rightarrow> nat \<Rightarrow> int option \<Rightarrow> nat list \<Rightarrow> md_row list \<Rightarrow>
   nat option \<Rightarrow> loop_end \<times> md_row list" where
  "path_loop objs ct pk [] table metadata = (Finished metadata, table)"
| "path_loop objs ct pk (i # rest) table metadata =
     (let md = table ! i in
      if md_content_type md \<noteq> ct \<or> md_object_id md \<noteq> pk then
        (case objs (md_content_type md) (md_object_id md) of
           None \<Rightarrow> (Returned, table)
         | Some obj \<Rightarrow>
             (case t_url obj of
                Inl e \<Rightarrow> (Raised e, table)
              | Inr u \<Rightarrow> path_loop objs ct pk rest (table[i := md\<lparr>md_path := u\<rparr>]) metadata))
      else path_loop objs ct pk rest table (Some i))"

text \<open>
  \<^verbatim>\<open>create_metadata_instance\<close>. The result is the exception that reaches the caller, if
  any, and the table. A row made by \<^verbatim>\<open>get_or_create\<close> has no values yet.
\<close>

definition create_metadata_instance ::
  "(nat \<Rightarrow> int option \<Rightarrow> tracked option) \<Rightarrow> (md_row \<Rightarrow> bool) \<Rightarrow> tracked \<Rightarrow> md_row list \<Rightarrow>
   error option \<times> md_row list" where
  "create_metadata_instance objs sel instance table =
     (if t_handled instance then (None, table)
      else
        (let ct = t_content_type instance; pk = t_pk instance in
         case t_url instance of
           Inl e \<Rightarrow> if e = AttributeError then (None, table) else (Some e, table)
         | Inr path \<Rightarrow>
             (case path_loop objs ct pk (get_instances sel path table) table None of
                (Raised e, t) \<Rightarrow> (Some e, t)
              | (Returned, t) \<Rightarrow> (None, t)
              | (Finished (Some j), t) \<Rightarrow> (None, t)
              | (Finished None, t) \<Rightarrow>
                  (case filter (\<lambda>j. linked ct pk (t ! j)) [0..<length t] of
                     [] \<Rightarrow>
                       (None, t @ [\<lparr>md_content_type = ct, md_object_id = pk, md_path = path,
                                    md_values = []\<rparr>])
                   | [j] \<Rightarrow> (None, t[j := (t ! j)\<lparr>md_path := path\<rparr>])
                   | j # j' # js \<Rightarrow> (Some MultipleObjectsReturned, t)))))"

text \<open>\<^verbatim>\<open>_update_callback\<close> only calls \<^verbatim>\<open>create_metadata_instance\<close>.\<close>

definition update_callback ::
  "(nat \<Rightarrow> int option \<Rightarrow> tracked option) \<Rightarrow> (md_row \<Rightarrow> bool) \<Rightarrow> tracked \<Rightarrow> md_row list \<Rightarrow>
   error option \<times> md_row list" where
  "update_callback objs sel instance table = create_metadata_instance objs sel instance table"

subsection \<open>Properties of metadata rows\<close>

text \<open>
  A row is \<open>alive\<close> when its content object exists and has a URL, \<open>repointed\<close> when its
  \<^verbatim>\<open>_path\<close> is the current URL of its content object. Two tables have the
  \<open>same_keys\<close> when their rows carry the same generic foreign keys, position by
  position.
\<close>

definition alive :: "(nat \<Rightarrow> int option \<Rightarrow> tracked option) \<Rightarrow> md_row \<Rightarrow> bool" where
  "alive objs r =
     (\<exists>obj u. objs (md_content_type r) (md_object_id r) = Some obj \<and> t_url obj = Inr u)"

definition repointed :: "(nat \<Rightarrow> int option \<Rightarrow> tracked option) \<Rightarrow> md_row \<Rightarrow> bool" where
  "repointed objs r =
     (\<exists>obj. objs (md_content_type r) (md_object_id r) = Some obj \<and> t_url obj = Inr (md_path r))"

definition same_keys :: "md_row list \<Rightarrow> md_row list \<Rightarrow> bool" where
  "same_keys t t' =
     (length t = length t'
      \<and> (\<forall>j<length t. md_content_type (t ! j) = md_content_type (t' ! j)
                     \<and> md_object_id (t ! j) = md_object_id (t' ! j)))"

section \<open>The metaclass, the registry and linked metadata\<close>

text \<open>
  An attribute of a class body is a \<^verbatim>\<open>MetadataField\<close> or anything else. A class made by
  the metaclass is its name, the attributes left to \<^verbatim>\<open>type.__new__\<close> and its \<^verbatim>\<open>_meta\<close>,
  which the base class \<^verbatim>\<open>Metadata\<close> itself does not get.
\<close>

datatype 'i attr_value = FieldAttr "'i metadata_field" | OtherAttr string

record 'i metadata_class =
  mc_name :: string
  mc_attrs :: "(string \<times> 'i attr_value) list"
  mc_meta :: "'i options option"


fun field_attrs :: "(string \<times> 'i attr_value) list \<Rightarrow> (string \<times> 'i metadata_field) list" where
  "field_attrs [] = []"
| "field_attrs ((key, FieldAttr f) # rest) = (key, f) # field_attrs rest"
| "field_attrs ((key, OtherAttr x) # rest) = field_attrs rest"


text \<open>The elements: the field attributes, sorted (stably) by \<^verbatim>\<open>creation_counter\<close>.\<close>

definition collect_elements :: "(string \<times> 'i attr_value) list \<Rightarrow> (string \<times> 'i metadata_field) list" where
  "collect_elements attrs = sort_key (\<lambda>x. creation_counter (snd x)) (field_attrs attrs)"

definition quoted :: "char \<Rightarrow> string \<Rightarrow> string" where
  "quoted q s = q # s @ [q]"






subsection \<open>_get_metadata_model and get_linked_metadata\<close>

definition valid_names :: "string list \<Rightarrow> string" where
  "valid_names keys =
     (case keys of
        [k] \<Rightarrow> ''Try using the name '' @ quoted (CHR 0x22) k
                @ '' or simply leaving it out altogether.''
      | _ \<Rightarrow> ''Valid names are '' @ intercalate '', '' (map (quoted (CHR 0x22)) keys))"

definition get_metadata_model ::
  "(string \<times> 'i metadata_class) list \<Rightarrow> string option \<Rightarrow> error + 'i metadata_class" where
  "get_metadata_model registry name =
     (case name of
        Some n \<Rightarrow>
          (case map_of registry n of
             Some cls \<Rightarrow> Inr cls
           | None \<Rightarrow>
               Inl (PyException (''Metadata definition with name '' @ quoted (CHR 0x22) n
                                  @ '' does not exist.'' @ [CHR 0x0A]
                                  @ valid_names (map fst registry))))
      | None \<Rightarrow>
          (case registry of
             [(k, cls)] \<Rightarrow> Inr cls
           | _ \<Rightarrow>
               Inl (AssertionError
                 (''You must have exactly one Metadata class, if using get_metadata() ''
                  @ ''without a '' @ quoted (CHR 0x27) ''name'' @ '' parameter.''))))"

text \<open>\<^verbatim>\<open>objects.get(**kwargs)\<close> on a table.\<close>

definition objects_get :: "('r \<Rightarrow> bool) \<Rightarrow> 'r list \<Rightarrow> error + 'r" where
  "objects_get matches table =
     (case filter matches table of
        [] \<Rightarrow> Inl DoesNotExist
      | [r] \<Rightarrow> Inr r
      | r # r' # rs \<Rightarrow> Inl MultipleObjectsReturned)"

text \<open>
  The instances \<^verbatim>\<open>get_linked_metadata\<close> collects: a stored row, a fresh unsaved
  \<^verbatim>\<open>InstanceMetadata(_content_object=obj)\<close>, or a fresh unsaved
  \<^verbatim>\<open>ModelMetadata(_content_type=content_type)\<close>.
\<close>

datatype md_instance = Row md_row | UnsavedInstance tracked | UnsavedModel nat

text \<open>The two \<^verbatim>\<open>try\<close> statements: only \<^verbatim>\<open>DoesNotExist\<close> is caught.\<close>

definition instance_lookup :: "md_row list \<Rightarrow> tracked \<Rightarrow> error + md_instance" where
  "instance_lookup table obj =
     (case objects_get (\<lambda>r. md_content_type r = t_content_type obj
                             \<and> md_object_id r = t_pk obj) table of
        Inr r \<Rightarrow> Inr (Row r)
      | Inl e \<Rightarrow> if e = DoesNotExist then Inr (UnsavedInstance obj) else Inl e)"

definition model_lookup :: "md_row list \<Rightarrow> tracked \<Rightarrow> error + md_instance" where
  "model_lookup table obj =
     (case objects_get (\<lambda>r. md_content_type r = t_content_type obj) table of
        Inr r \<Rightarrow> Inr (Row r)
      | Inl e \<Rightarrow> if e = DoesNotExist then Inr (UnsavedModel (t_content_type obj)) else Inl e)"

text \<open>
  \<^verbatim>\<open>get_linked_metadata\<close>. \<open>get_model\<close> is \<^verbatim>\<open>Options.get_model\<close>
  (\<^verbatim>\<open>djangoseo.options\<close>), a parameter: the metadata model of a backend, or \<^verbatim>\<open>None\<close>;
  \<open>db\<close> gives the table of a model. The class \<^verbatim>\<open>Metadata\<close> itself is passed to
  \<^verbatim>\<open>FormattedMetadata\<close>, so \<^verbatim>\<open>__class__.__name__\<close> is the name of the metaclass; the
  instances are a list and the path is empty.
\<close>

definition get_linked_metadata ::
  "(string \<Rightarrow> string) \<Rightarrow> (string \<Rightarrow> string) \<Rightarrow> (md_instance options \<Rightarrow> string \<Rightarrow> 'm option) \<Rightarrow>
   (string \<times> md_instance metadata_class) list \<Rightarrow> ('m \<Rightarrow> md_row list) \<Rightarrow> tracked \<Rightarrow>
   string option \<Rightarrow> site option \<Rightarrow> string option \<Rightarrow> string option \<Rightarrow>
   error + md_instance formatted_metadata" where
  "get_linked_metadata md5hex iri get_model registry db obj name site_arg language subdomain =
     (case get_metadata_model registry name of
        Inl e \<Rightarrow> Inl e
      | Inr cls \<Rightarrow>
          (case mc_meta cls of
             None \<Rightarrow> Inl AttributeError
           | Some opts \<Rightarrow>
               (case (case get_model opts ''modelinstance'' of
                        None \<Rightarrow> Inr []
                      | Some InstanceMetadata \<Rightarrow>
                          (case instance_lookup (db InstanceMetadata) obj of
                             Inl e \<Rightarrow> Inl e
                           | Inr instance_md \<Rightarrow> Inr [instance_md])) of
                  Inl e \<Rightarrow> Inl e
                | Inr instances \<Rightarrow>
                    (case (case get_model opts ''model'' of
                             None \<Rightarrow> Inr instances
                           | Some ModelMetadata \<Rightarrow>
                               (case model_lookup (db ModelMetadata) obj of
                                  Inl e \<Rightarrow> Inl e
                                | Inr model_md \<Rightarrow> Inr (instances @ [model_md]))) of
                       Inl e \<Rightarrow> Inl e
                     | Inr instances' \<Rightarrow>
                         FormattedMetadata_init md5hex iri
                           \<lparr>class_name = ''MetadataBase'', meta = opts\<rparr>
                           (Sequence instances') [] site_arg language subdomain))))"

text \<open>
  The instance list as the claim describes it: for each of the two metadata models that
  the definition has, the stored row if there is one, a fresh unsaved instance
  otherwise.
\<close>

definition expected_instances ::
  "(md_instance options \<Rightarrow> string \<Rightarrow> 'm option) \<Rightarrow> md_instance options \<Rightarrow> ('m \<Rightarrow> md_row list) \<Rightarrow>
   tracked \<Rightarrow> md_instance list" where
  "expected_instances get_model opts db obj =
     (case get_model opts ''modelinstance'' of
        None \<Rightarrow> []
      | Some m \<Rightarrow>
          (case filter (\<lambda>r. md_content_type r = t_content_type obj
                              \<and> md_object_id r = t_pk obj) (db m) of
             [] \<Rightarrow> [UnsavedInstance obj]
           | r # rs \<Rightarrow> [Row r]))
     @ (case get_model opts ''model'' of
          None \<Rightarrow> []
        | Some m \<Rightarrow>
            (case filter (\<lambda>r. md_content_type r = t_content_type obj) (db m) of
               [] \<Rightarrow> [UnsavedModel (t_content_type obj)]
             | r # rs \<Rightarrow> [Row r]))"

section \<open>Example objects\<close>

text \<open>
  A metadata definition with three fields, two backend instances (numbered 0 and 1) of
  which only the second has a title, and formatted metadata over them: once over a
  generator, as \<^verbatim>\<open>_get_formatted_data\<close> builds it, once over a list, as
  \<^verbatim>\<open>get_linked_metadata\<close> does.
\<close>

definition ex_field :: "nat \<Rightarrow> nat populate_from \<Rightarrow> nat metadata_field" where
  "ex_field n p =
     \<lparr>creation_counter = n, populate_from = p, head = True,
      clean = (\<lambda>v. v), render = (\<lambda>v. case v of PNone \<Rightarrow> [] | PStr s \<Rightarrow> s)\<rparr>"

definition ex_options :: "nat options" where
  "ex_options =
     \<lparr>use_cache = True, use_sites = False, use_i18n = False, use_subdomains = False,
      elements = [(''title'', ex_field 0 NotSet),
                  (''heading'', ex_field 1 (FieldName ''title'')),
                  (''keywords'', ex_field 2 (Literal (PStr ''seo'')))],
      groups = [], backends = [''path'', ''modelinstance'', ''model'', ''view'']\<rparr>"

definition ex_metadata :: "nat metadata" where
  "ex_metadata = \<lparr>class_name = ''Meta'', meta = ex_options\<rparr>"

definition ex_rv :: "nat \<Rightarrow> string \<Rightarrow> pyval" where
  "ex_rv i name = (if i = 1 \<and> name = ''title'' then PStr ''Home'' else PNone)"

definition ex_fm :: "nat formatted_metadata" where
  "ex_fm =
     \<lparr>fm_metadata = ex_metadata, cache_prefix = Some ''djangoseo.Meta.x'',
      instances_original = Generator [0, 1], instances_cache = []\<rparr>"

definition ex_linked_fm :: "nat formatted_metadata" where
  "ex_linked_fm =
     \<lparr>fm_metadata = ex_metadata, cache_prefix = None,
      instances_original = Sequence [0, 1], instances_cache = []\<rparr>"



definition ex_md5hex :: "string \<Rightarrow> string" where
  "ex_md5hex s = ''d41d8cd98f00b204e9800998ecf8427e''"

definition ex_iri :: "string \<Rightarrow> string" where
  "ex_iri s = s"

text \<open>
  A tracked page whose URL changes from \<^verbatim>\<open>/old/\<close> to \<^verbatim>\<open>/new/\<close>, the site, and metadata
  tables.
\<close>

definition ex_site :: site where
  "ex_site = \<lparr>domain = ''example.com''\<rparr>"

definition ex_page :: "string \<Rightarrow> tracked" where
  "ex_page url =
     \<lparr>t_content_type = 1, t_pk = Some 8, t_id = Value (Some 8), t_url = Inr url,
      t_handled = False\<rparr>"

definition ex_other :: tracked where
  "ex_other =
     \<lparr>t_content_type = 1, t_pk = Some 7, t_id = Value (Some 7), t_url = Inr ''/moved/'',
      t_handled = False\<rparr>"

definition ex_row :: "int \<Rightarrow> string \<Rightarrow> md_row" where
  "ex_row oid path =
     \<lparr>md_content_type = 1, md_object_id = Some oid, md_path = path, md_values = []\<rparr>"

definition ex_objs :: "nat \<Rightarrow> int option \<Rightarrow> tracked option" where
  "ex_objs ct oid = (if ct = 1 \<and> oid = Some 7 then Some ex_other else None)"

definition ex_db :: "string \<Rightarrow> md_row list" where
  "ex_db m = (if m = ''instance'' then [ex_row 7 ''/a/'', ex_row 8 ''/b/''] else [ex_row 8 ''/c/''])"




text \<open>
  A registered definition for linked metadata, without caching, and the lookup of its
  models by backend name.
\<close>

definition ex_linked_options :: "md_instance options" where
  "ex_linked_options =
     \<lparr>use_cache = False, use_sites = False, use_i18n = False, use_subdomains = False,
      elements = [], groups = [],
      backends = [''path'', ''modelinstance'', ''model'', ''view'']\<rparr>"

definition ex_registry :: "(string \<times> md_instance metadata_class) list" where
  "ex_registry = [(''Meta'', \<lparr>mc_name = ''Meta'', mc_attrs = [], mc_meta = Some ex_linked_options\<rparr>)]"

definition ex_get_model :: "md_instance options \<Rightarrow> string \<Rightarrow> string option" where
  "ex_get_model opts backend_name =
     (if backend_name = ''modelinstance'' then Some ''instance''
      else if backend_name = ''model'' then Some ''model'' else None)"

definition ex_linked_db :: "string \<Rightarrow> md_row list" where
  "ex_linked_db m = (if m = ''instance'' then [ex_row 7 ''/a/''] else [])"

text \<open>A stored page whose primary key is 0, and the same page about to be saved.\<close>

definition ex_page0 :: "string \<Rightarrow> tracked" where
  "ex_page0 url =
     \<lparr>t_content_type = 1, t_pk = Some 0, t_id = Value (Some 0), t_url = Inr url,
      t_handled = False\<rparr>"

text \<open>
  The same definition with \<^verbatim>\<open>use_cache\<close> and \<^verbatim>\<open>use_i18n\<close> set, and tables in which two
  rows are linked to page 8.
\<close>

definition ex_cached_registry :: "(string \<times> md_instance metadata_class) list" where
  "ex_cached_registry =
     [(''Meta'', \<lparr>mc_name = ''Meta'', mc_attrs = [],
                  mc_meta = Some (ex_linked_options\<lparr>use_cache := True, use_i18n := True\<rparr>)\<rparr>)]"

definition ex_dup_db :: "string \<Rightarrow> md_row list" where
  "ex_dup_db m = (if m = ''instance'' then [ex_row 8 ''/b/'', ex_row 8 ''/c/''] else [])"




section \<open>Resolution of values\<close>

subsection \<open>The loop over the instances\<close>

lemma first_nonempty_Nil [simp]: "first_nonempty rv name [] = None"
  by (simp add: first_nonempty_def)

lemma first_nonempty_Cons:
  "first_nonempty rv name (i # rest) =
     (if truthy (rv i name) then Some (rv i name) else first_nonempty rv name rest)"
  by (simp add: first_nonempty_def)

lemma first_nonempty_append:
  "first_nonempty rv name (xs @ ys) =
     (case first_nonempty rv name xs of Some v \<Rightarrow> Some v | None \<Rightarrow> first_nonempty rv name ys)"
  by (induction xs) (simp_all add: first_nonempty_Cons)

lemma nonempty_truthy: "truthy (rv i name) \<Longrightarrow> nonempty rv name i = Some (rv i name)"
  by (simp add: nonempty_def)

lemma nonempty_falsy: "\<not> truthy (rv i name) \<Longrightarrow> nonempty rv name i = None"
  by (simp add: nonempty_def)

lemma replay_result: "fst (replay (nonempty rv name) xs) = first_nonempty rv name xs"
proof (induction xs)
  case Nil
  show ?case by simp
next
  case (Cons i rest)
  obtain res ys where r: "replay (nonempty rv name) rest = (res, ys)"
    by (cases "replay (nonempty rv name) rest")
  with Cons show ?case
    by (cases "truthy (rv i name)") (simp_all add: first_nonempty_Cons nonempty_truthy nonempty_falsy)
qed

lemma replay_None_yields: "fst (replay body xs) = None \<Longrightarrow> snd (replay body xs) = xs"
  by (induction xs) (auto split: option.splits prod.splits)

lemma draw_result: "fst (draw (nonempty rv name) xs) = first_nonempty rv name xs"
proof (induction xs)
  case Nil
  show ?case by simp
next
  case (Cons i rest)
  obtain res ys left where r: "draw (nonempty rv name) rest = (res, ys, left)"
    by (cases "draw (nonempty rv name) rest")
  with Cons show ?case
    by (cases "truthy (rv i name)") (simp_all add: first_nonempty_Cons nonempty_truthy nonempty_falsy)
qed

lemma draw_split: "draw body xs = (res, zs, left) \<Longrightarrow> zs @ left = xs"
  by (induction xs arbitrary: res zs left) (auto split: option.splits prod.splits)

lemma draw_None_all: "draw body xs = (None, zs, left) \<Longrightarrow> zs = xs \<and> left = []"
  by (induction xs arbitrary: zs left) (auto split: option.splits prod.splits)

lemma draw_take: "draw body xs = (res, zs, left) \<Longrightarrow> zs = take (length zs) xs"
  using draw_split[of body xs res zs left] by auto

lemma first_nonempty_take:
  "first_nonempty rv name (take k xs) = Some v \<Longrightarrow> first_nonempty rv name xs = Some v"
proof -
  assume h: "first_nonempty rv name (take k xs) = Some v"
  show ?thesis
    using first_nonempty_append[of rv name "take k xs" "drop k xs"] h by simp
qed

lemma prefixes_first_nonempty:
  "prefixes_of xs c \<Longrightarrow> first_nonempty rv name c = Some v \<Longrightarrow> first_nonempty rv name xs = Some v"
proof (induction rule: prefixes_of.induct)
  case prefixes_Nil
  then show ?case by simp
next
  case (prefixes_snoc c k)
  show ?case
  proof (cases "first_nonempty rv name c")
    case None
    with prefixes_snoc.prems have "first_nonempty rv name (take k xs) = Some v"
      by (simp add: first_nonempty_append)
    then show ?thesis by (rule first_nonempty_take)
  next
    case (Some w)
    with prefixes_snoc.prems have "w = v"
      by (simp add: first_nonempty_append)
    with Some prefixes_snoc.IH show ?thesis by simp
  qed
qed


lemma replay_cases:
  "replay (nonempty rv name) xs = (first_nonempty rv name xs, snd (replay (nonempty rv name) xs))"
  using replay_result[of rv name xs] by (cases "replay (nonempty rv name) xs") simp

lemma replay_miss:
  assumes "first_nonempty rv name xs = None"
  shows "replay (nonempty rv name) xs = (None, xs)"
proof -
  have f: "fst (replay (nonempty rv name) xs) = None"
    by (simp add: replay_result assms)
  have "snd (replay (nonempty rv name) xs) = xs"
    using f by (rule replay_None_yields)
  with f show ?thesis by (simp add: prod_eq_iff)
qed

lemma for_instances_hit:
  assumes "first_nonempty rv name (instances_cache fm) = Some v"
  shows "for_instances (nonempty rv name) fm =
           (Some v, snd (replay (nonempty rv name) (instances_cache fm)), fm)"
  unfolding for_instances_def
  by (subst replay_cases) (simp add: assms)

lemma for_instances_miss_Generator:
  assumes "first_nonempty rv name (instances_cache fm) = None"
    and "instances_original fm = Generator items"
    and "draw (nonempty rv name) items = (res, zs, left)"
  shows "for_instances (nonempty rv name) fm =
           (first_nonempty rv name items, instances_cache fm @ zs,
            fm\<lparr>instances_original := Generator left, instances_cache := instances_cache fm @ zs\<rparr>)"
proof -
  have r: "replay (nonempty rv name) (instances_cache fm) = (None, instances_cache fm)"
    using assms(1) by (rule replay_miss)
  have d: "res = first_nonempty rv name items"
    using draw_result[of rv name items] assms(3) by simp
  show ?thesis
    unfolding for_instances_def by (simp add: r assms(2,3) d)
qed

lemma for_instances_miss_Sequence:
  assumes "first_nonempty rv name (instances_cache fm) = None"
    and "instances_original fm = Sequence items"
    and "draw (nonempty rv name) items = (res, zs, left)"
  shows "for_instances (nonempty rv name) fm =
           (first_nonempty rv name items, instances_cache fm @ zs,
            fm\<lparr>instances_cache := instances_cache fm @ zs\<rparr>)"
proof -
  have r: "replay (nonempty rv name) (instances_cache fm) = (None, instances_cache fm)"
    using assms(1) by (rule replay_miss)
  have d: "res = first_nonempty rv name items"
    using draw_result[of rv name items] assms(3) by simp
  show ?thesis
    unfolding for_instances_def by (simp add: r assms(2,3) d)
qed

lemma for_instances_result:
  assumes "cache_ok fm"
  shows "fst (for_instances (nonempty rv name) fm) = first_nonempty rv name (backend_order fm)"
proof (cases "first_nonempty rv name (instances_cache fm)")
  case (Some v)
  have "first_nonempty rv name (backend_order fm) = Some v"
  proof (cases "instances_original fm")
    case (Generator items)
    then show ?thesis by (simp add: backend_order_def first_nonempty_append Some)
  next
    case (Sequence items)
    with assms have "prefixes_of items (instances_cache fm)" by (simp add: cache_ok_def)
    then have "first_nonempty rv name items = Some v"
      using Some by (rule prefixes_first_nonempty)
    with Sequence show ?thesis by (simp add: backend_order_def)
  qed
  then show ?thesis by (simp add: for_instances_hit[OF Some])
next
  case None
  show ?thesis
  proof (cases "instances_original fm")
    case (Generator items)
    obtain res zs left where d: "draw (nonempty rv name) items = (res, zs, left)"
      by (cases "draw (nonempty rv name) items")
    show ?thesis
      by (simp add: for_instances_miss_Generator[OF None Generator d] backend_order_def
          Generator first_nonempty_append None)
  next
    case (Sequence items)
    obtain res zs left where d: "draw (nonempty rv name) items = (res, zs, left)"
      by (cases "draw (nonempty rv name) items")
    show ?thesis
      by (simp add: for_instances_miss_Sequence[OF None Sequence d] backend_order_def Sequence)
  qed
qed

text \<open>The state after a loop: same metadata, same backend order, still a good cache.\<close>

lemma for_instances_state:
  assumes "cache_ok fm" and "for_instances (nonempty rv name) fm = (res, ys, fm')"
  shows "cache_ok fm' \<and> backend_order fm' = backend_order fm \<and> fm_metadata fm' = fm_metadata fm
         \<and> cache_prefix fm' = cache_prefix fm"
proof (cases "first_nonempty rv name (instances_cache fm)")
  case (Some v)
  with assms show ?thesis by (simp add: for_instances_hit[OF Some])
next
  case None
  show ?thesis
  proof (cases "instances_original fm")
    case (Generator items)
    obtain r zs left where d: "draw (nonempty rv name) items = (r, zs, left)"
      by (cases "draw (nonempty rv name) items")
    have "zs @ left = items" using d by (rule draw_split)
    then show ?thesis
      using assms(2)
      by (auto simp: for_instances_miss_Generator[OF None Generator d] backend_order_def
          Generator cache_ok_def)
  next
    case (Sequence items)
    obtain r zs left where d: "draw (nonempty rv name) items = (r, zs, left)"
      by (cases "draw (nonempty rv name) items")
    have "zs = take (length zs) items" using d by (rule draw_take)
    moreover have "prefixes_of items (instances_cache fm)"
      using assms(1) Sequence by (simp add: cache_ok_def)
    ultimately have "prefixes_of items (instances_cache fm @ zs)"
      using prefixes_snoc[of items "instances_cache fm" "length zs"] by simp
    then show ?thesis
      using assms(2)
      by (auto simp: for_instances_miss_Sequence[OF None Sequence d] backend_order_def
          Sequence cache_ok_def)
  qed
qed

lemma resolve_value_hit:
  "for_instances (nonempty rv name) fm = (Some v, ys, fm') \<Longrightarrow>
     resolve_value (Suc depth) rv fm name = (Inr v, fm')"
  by simp

lemma resolve_value_miss:
  "for_instances (nonempty rv name) fm = (None, ys, fm') \<Longrightarrow>
     resolve_value (Suc depth) rv fm name =
       (case map_of (elements (meta (fm_metadata fm'))) name of
          None \<Rightarrow> (Inr PNone, fm')
        | Some el \<Rightarrow>
            (case populate_from el of
               Callable f \<Rightarrow> (Inr (f None), fm')
             | Literal v \<Rightarrow> (Inr v, fm')
             | FieldName n \<Rightarrow> resolve_value depth rv fm' n
             | NotSet \<Rightarrow> (Inr PNone, fm')))"
  by simp

lemma resolve_value_resolve_over:
  "cache_ok fm \<Longrightarrow>
     fst (resolve_value depth rv fm name) =
       resolve_over depth rv (fm_metadata fm) (backend_order fm) name
     \<and> cache_ok (snd (resolve_value depth rv fm name))
     \<and> backend_order (snd (resolve_value depth rv fm name)) = backend_order fm
     \<and> fm_metadata (snd (resolve_value depth rv fm name)) = fm_metadata fm
     \<and> cache_prefix (snd (resolve_value depth rv fm name)) = cache_prefix fm"
proof (induction depth arbitrary: fm name)
  case 0
  then show ?case by simp
next
  case (Suc depth)
  obtain res ys fm' where f: "for_instances (nonempty rv name) fm = (res, ys, fm')"
    by (cases "for_instances (nonempty rv name) fm")
  have st: "cache_ok fm' \<and> backend_order fm' = backend_order fm
            \<and> fm_metadata fm' = fm_metadata fm \<and> cache_prefix fm' = cache_prefix fm"
    using Suc.prems f by (rule for_instances_state)
  have res: "first_nonempty rv name (backend_order fm) = res"
    using for_instances_result[OF Suc.prems, of rv name] f by simp
  show ?case
  proof (cases res)
    case (Some v)
    have "resolve_value (Suc depth) rv fm name = (Inr v, fm')"
      using f Some by (intro resolve_value_hit) simp
    moreover have "resolve_over (Suc depth) rv (fm_metadata fm) (backend_order fm) name = Inr v"
      using res Some by simp
    ultimately show ?thesis using st by simp
  next
    case None
    have miss: "for_instances (nonempty rv name) fm = (None, ys, fm')"
      using f None by simp
    have fn: "first_nonempty rv name (backend_order fm) = None"
      using res None by simp
    note step = resolve_value_miss[OF miss, of depth]
    show ?thesis
    proof (cases "map_of (elements (meta (fm_metadata fm))) name")
      case None
      then show ?thesis unfolding step using st fn by simp
    next
      case (Some el)
      show ?thesis
      proof (cases "populate_from el")
        case NotSet
        then show ?thesis unfolding step using st fn Some by simp
      next
        case (Callable g)
        then show ?thesis unfolding step using st fn Some by simp
      next
        case (Literal w)
        then show ?thesis unfolding step using st fn Some by simp
      next
        case (FieldName n)
        have ih: "fst (resolve_value depth rv fm' n) =
                    resolve_over depth rv (fm_metadata fm') (backend_order fm') n
                  \<and> cache_ok (snd (resolve_value depth rv fm' n))
                  \<and> backend_order (snd (resolve_value depth rv fm' n)) = backend_order fm'
                  \<and> fm_metadata (snd (resolve_value depth rv fm' n)) = fm_metadata fm'
                  \<and> cache_prefix (snd (resolve_value depth rv fm' n)) = cache_prefix fm'"
          using st by (intro Suc.IH) simp
        have step': "resolve_value (Suc depth) rv fm name = resolve_value depth rv fm' n"
          unfolding step using st Some FieldName by simp
        have over: "resolve_over (Suc depth) rv (fm_metadata fm) (backend_order fm) name =
                      resolve_over depth rv (fm_metadata fm) (backend_order fm) n"
          using fn Some FieldName by simp
        show ?thesis
          unfolding step' over using ih st by simp
      qed
    qed
  qed
qed

lemma cache_ok_fresh: "instances_cache fm = [] \<Longrightarrow> cache_ok fm"
  by (cases "instances_original fm") (simp_all add: cache_ok_def prefixes_Nil)

lemma FormattedMetadata_init_cache_ok:
  "FormattedMetadata_init md5hex iri md instances path site_arg language subdomain = Inr fm \<Longrightarrow>
     cache_ok fm \<and> backend_order fm = (case instances of Generator xs \<Rightarrow> xs | Sequence xs \<Rightarrow> xs)"
  by (auto simp: FormattedMetadata_init_def cache_ok_fresh backend_order_def
      split: if_splits sum.splits inst_source.splits)

text \<open>
  Claim C1. In every state the object can reach (\<open>cache_ok\<close>), with room for at least one
  call, \<^verbatim>\<open>_resolve_value(name)\<close> returns the value of the first instance, in backend
  order, whose own \<^verbatim>\<open>_resolve_value(name)\<close> is non-empty. When every instance gives an
  empty value it falls back on \<^verbatim>\<open>populate_from\<close> of the element: a callable is called
  with \<^verbatim>\<open>None\<close>, a \<^verbatim>\<open>Literal\<close> gives its value, any other set value is resolved as a
  field name by a nested call, and \<^verbatim>\<open>None\<close> is returned when the name is no element or
  \<^verbatim>\<open>populate_from\<close> is not set.
\<close>

theorem resolve_value_first_nonempty:
  assumes "cache_ok fm"
  shows "(\<forall>v. first_nonempty rv name (backend_order fm) = Some v \<longrightarrow>
            fst (resolve_value (Suc depth) rv fm name) = Inr v)
       \<and> (first_nonempty rv name (backend_order fm) = None \<longrightarrow>
            fst (resolve_value (Suc depth) rv fm name) =
              (case map_of (elements (meta (fm_metadata fm))) name of
                 None \<Rightarrow> Inr PNone
               | Some el \<Rightarrow>
                   (case populate_from el of
                      Callable f \<Rightarrow> Inr (f None)
                    | Literal v \<Rightarrow> Inr v
                    | FieldName n \<Rightarrow> fst (resolve_value depth rv fm n)
                    | NotSet \<Rightarrow> Inr PNone)))"
proof -
  have top: "fst (resolve_value (Suc depth) rv fm name) =
               resolve_over (Suc depth) rv (fm_metadata fm) (backend_order fm) name"
    using resolve_value_resolve_over[OF assms, of "Suc depth" rv name] by simp
  have nested: "fst (resolve_value depth rv fm n) =
                  resolve_over depth rv (fm_metadata fm) (backend_order fm) n" for n
    using resolve_value_resolve_over[OF assms, of depth rv n] by simp
  show ?thesis
    unfolding top nested
    by (simp split: option.splits populate_from.splits)
qed

theorem resolve_value_first_nonempty_witness:
  "cache_ok ex_fm
   \<and> first_nonempty ex_rv ''title'' (backend_order ex_fm) = Some (PStr ''Home'')
   \<and> fst (resolve_value (Suc 0) ex_rv ex_fm ''title'') = Inr (PStr ''Home'')
   \<and> first_nonempty ex_rv ''heading'' (backend_order ex_fm) = None
   \<and> fst (resolve_value (Suc (Suc 0)) ex_rv ex_fm ''heading'') =
       fst (resolve_value (Suc 0) ex_rv ex_fm ''title'')"
proof -
  have ok: "cache_ok ex_fm"
    by (simp add: cache_ok_fresh ex_fm_def)
  have t: "first_nonempty ex_rv ''title'' (backend_order ex_fm) = Some (PStr ''Home'')"
    by (simp add: first_nonempty_def backend_order_def ex_fm_def ex_rv_def)
  have h: "first_nonempty ex_rv ''heading'' (backend_order ex_fm) = None"
    by (simp add: first_nonempty_def backend_order_def ex_fm_def ex_rv_def)
  have el: "map_of (elements (meta (fm_metadata ex_fm))) ''heading''
              = Some (ex_field 1 (FieldName ''title''))"
    by (simp add: ex_fm_def ex_metadata_def ex_options_def)
  have "fst (resolve_value (Suc 0) ex_rv ex_fm ''title'') = Inr (PStr ''Home'')"
    using resolve_value_first_nonempty[OF ok, of ex_rv "''title''" 0] t by blast
  moreover have "fst (resolve_value (Suc (Suc 0)) ex_rv ex_fm ''heading'') =
                   fst (resolve_value (Suc 0) ex_rv ex_fm ''title'')"
    using resolve_value_first_nonempty[OF ok, of ex_rv "''heading''" "Suc 0"] h el
    by (simp add: ex_field_def)
  ultimately show ?thesis using ok t h by simp
qed

text \<open>
  \<^verbatim>\<open>_resolve_value\<close> returns when the recursion limit leaves room for the chain of field
  names: only a chain longer than the limit (a cycle, for one) ends in
  \<^verbatim>\<open>RecursionError\<close>.
\<close>

lemma resolve_over_returns:
  "chain_ends steps (elements (meta md)) name \<Longrightarrow>
     \<exists>v. resolve_over (Suc steps) rv md insts name = Inr v"
proof (induction steps arbitrary: name)
  case 0
  then show ?case
    by (auto split: option.splits populate_from.splits)
next
  case (Suc k)
  show ?case
  proof (cases "first_nonempty rv name insts")
    case (Some v)
    then show ?thesis by simp
  next
    case None
    note miss = this
    show ?thesis
    proof (cases "map_of (elements (meta md)) name")
      case None
      with miss show ?thesis by simp
    next
      case (Some el)
      show ?thesis
      proof (cases "populate_from el")
        case (FieldName n)
        with Suc.prems Some have "chain_ends k (elements (meta md)) n" by simp
        then obtain v where "resolve_over (Suc k) rv md insts n = Inr v"
          using Suc.IH by blast
        with miss Some FieldName show ?thesis by simp
      qed (use miss Some in simp_all)
    qed
  qed
qed

lemma resolve_value_returns:
  assumes "cache_ok fm" and "chain_ends steps (elements (meta (fm_metadata fm))) name"
  shows "\<exists>v. fst (resolve_value (Suc steps) rv fm name) = Inr v"
  using resolve_value_resolve_over[OF assms(1), of "Suc steps" rv name]
    resolve_over_returns[OF assms(2), of rv "backend_order fm"]
  by (simp del: resolve_value.simps resolve_over.simps chain_ends.simps)

subsection \<open>Attribute access keeps the instance cache good\<close>

lemma render_group_cache_ok:
  "cache_ok fm \<Longrightarrow>
     cache_ok (snd (render_group depth rv fm fs))
     \<and> backend_order (snd (render_group depth rv fm fs)) = backend_order fm
     \<and> fm_metadata (snd (render_group depth rv fm fs)) = fm_metadata fm
     \<and> cache_prefix (snd (render_group depth rv fm fs)) = cache_prefix fm"
proof (induction fs arbitrary: fm)
  case Nil
  then show ?case by simp
next
  case (Cons f fs)
  show ?case
  proof (cases "map_of (elements (meta (fm_metadata fm))) f")
    case None
    with Cons.prems show ?thesis by simp
  next
    case (Some el)
    obtain r fm' where r: "resolve_value depth rv fm f = (r, fm')"
      by (cases "resolve_value depth rv fm f")
    have st: "cache_ok fm' \<and> backend_order fm' = backend_order fm
              \<and> fm_metadata fm' = fm_metadata fm \<and> cache_prefix fm' = cache_prefix fm"
      using resolve_value_resolve_over[OF Cons.prems, of depth rv f] r by simp
    show ?thesis
    proof (cases r)
      case (Inl e)
      with Some r st show ?thesis by simp
    next
      case (Inr v)
      obtain r2 fm2 where r2: "render_group depth rv fm' fs = (r2, fm2)"
        by (cases "render_group depth rv fm' fs")
      have "cache_ok fm2 \<and> backend_order fm2 = backend_order fm'
              \<and> fm_metadata fm2 = fm_metadata fm' \<and> cache_prefix fm2 = cache_prefix fm'"
        using Cons.IH[of fm'] st r2 by simp
      with Some r Inr r2 st show ?thesis by (cases r2) simp_all
    qed
  qed
qed

lemma getattr_cache_ok:
  assumes "cache_ok fm"
  shows "cache_ok (fst (snd (getattr depth rv fm c name)))
       \<and> backend_order (fst (snd (getattr depth rv fm c name))) = backend_order fm"
proof (cases "map_of (groups (meta (fm_metadata fm))) name")
  case (Some members)
  obtain r fm' where r: "render_group depth rv fm members = (r, fm')"
    by (cases "render_group depth rv fm members")
  have "cache_ok fm' \<and> backend_order fm' = backend_order fm"
    using render_group_cache_ok[OF assms, of depth rv members] r by simp
  with Some r assms show ?thesis
    by (cases r) (simp_all add: getattr_def Let_def)
next
  case None
  note nogroup = this
  show ?thesis
  proof (cases "map_of (elements (meta (fm_metadata fm))) name")
    case None
    with nogroup assms show ?thesis by (simp add: getattr_def Let_def)
  next
    case (Some el)
    obtain r fm' where r: "resolve_value depth rv fm name = (r, fm')"
      by (cases "resolve_value depth rv fm name")
    have "cache_ok fm' \<and> backend_order fm' = backend_order fm"
      using resolve_value_resolve_over[OF assms, of depth rv name] r by simp
    with nogroup Some r assms show ?thesis
      by (cases r) (simp_all add: getattr_def Let_def)
  qed
qed

subsection \<open>Iterating the instance generator\<close>

lemma replay_all: "replay (\<lambda>i. None) xs = (None, xs)"
  by (induction xs) simp_all

lemma draw_all: "draw (\<lambda>i. None) xs = (None, xs, [])"
  by (induction xs) simp_all

lemma iterate_instances_Generator:
  "instances_original fm = Generator items \<Longrightarrow>
     iterate_instances fm =
       (instances_cache fm @ items,
        fm\<lparr>instances_original := Generator [], instances_cache := instances_cache fm @ items\<rparr>)"
  by (simp add: iterate_instances_def for_instances_def replay_all draw_all)

lemma iterate_instances_Sequence:
  "instances_original fm = Sequence items \<Longrightarrow>
     iterate_instances fm =
       (instances_cache fm @ items, fm\<lparr>instances_cache := instances_cache fm @ items\<rparr>)"
  by (simp add: iterate_instances_def for_instances_def replay_all draw_all)

text \<open>
  Over a generator the design works: a whole iteration yields the cache and then what
  the generator still holds, leaves the generator empty, and every later iteration
  yields the same instances from the cache alone.
\<close>

lemma generator_iterations_agree:
  assumes "instances_original fm = Generator items"
  shows "fst (iterate_instances (snd (iterate_instances fm))) = fst (iterate_instances fm)
       \<and> instances_original (snd (iterate_instances fm)) = Generator []"
  using assms by (simp add: iterate_instances_Generator)

text \<open>
  Claim C9 fails over a list. \<^verbatim>\<open>get_linked_metadata\<close> hands \<^verbatim>\<open>FormattedMetadata\<close> a list;
  the second loop of \<^verbatim>\<open>__instances\<close> reads the list from its start at every iteration
  and appends each item to the cache again. The first iteration over the instances 0, 1
  yields 0, 1; the second yields 0, 1, 0, 1, which is also what the cache then holds.
\<close>

theorem list_backed_iterations_differ:
  "fst (iterate_instances ex_linked_fm) = [0, 1]
   \<and> fst (iterate_instances (snd (iterate_instances ex_linked_fm))) = [0, 1, 0, 1]
   \<and> instances_cache (snd (iterate_instances (snd (iterate_instances ex_linked_fm))))
       = [0, 1, 0, 1]"
  by (simp add: iterate_instances_Sequence ex_linked_fm_def)

subsection \<open>The cache prefix\<close>


lemma dotted_simps [simp]: "dotted [] = []" "dotted (x # xs) = CHR ''.'' # x @ dotted xs"
  by (simp_all add: dotted_def)



lemma str_join_Inr:
  "str_join sep bits = Inr p \<longleftrightarrow> None \<notin> set bits \<and> p = intercalate sep (map the bits)"
  by (auto simp: str_join_def)

lemma map_the_prefix_bits:
  "\<not> (use_i18n (meta md) \<and> language = None) \<Longrightarrow>
   map the (prefix_bits md5hex iri md path site_arg language subdomain) =
     [''djangoseo'', class_name md, hexpath_of md5hex iri (meta md) site_arg path]
     @ prefix_tail (meta md) language subdomain"
  by (cases language; cases subdomain) (auto simp: prefix_bits_def prefix_tail_def)

lemma None_in_prefix_bits:
  "None \<in> set (prefix_bits md5hex iri md path site_arg language subdomain)
     \<longleftrightarrow> use_i18n (meta md) \<and> language = None"
  by (auto simp: prefix_bits_def)

lemma init_cached:
  assumes "use_cache (meta md)"
  shows "FormattedMetadata_init md5hex iri md insts path site_arg language subdomain =
           (if use_i18n (meta md) \<and> language = None then Inl TypeError
            else Inr \<lparr>fm_metadata = md,
                      cache_prefix = Some (intercalate ''.''
                        ([''djangoseo'', class_name md,
                          hexpath_of md5hex iri (meta md) site_arg path]
                         @ prefix_tail (meta md) language subdomain)),
                      instances_original = insts, instances_cache = []\<rparr>)"
proof (cases "use_i18n (meta md) \<and> language = None")
  case True
  then show ?thesis
    using assms by (simp add: FormattedMetadata_init_def str_join_def None_in_prefix_bits)
next
  case False
  then show ?thesis
    using assms map_the_prefix_bits[OF False, of md5hex iri path site_arg subdomain]
    by (simp add: FormattedMetadata_init_def str_join_def None_in_prefix_bits)
qed

























subsection \<open>Attribute access\<close>

lemma getattr_element:
  assumes "map_of (groups (meta (fm_metadata fm))) name = None"
    and "map_of (elements (meta (fm_metadata fm))) name = Some el"
  shows "getattr depth rv fm c name =
           (let cache_key = cache_key_of fm name;
                cached = (case cache_key of Some k \<Rightarrow> cache_get c k | None \<Rightarrow> PNone)
            in if cached \<noteq> PNone
               then (Inr (Bound (BoundMetadataField el (py_or cached PNone))), fm, c)
               else
                 (case resolve_value depth rv fm name of
                    (Inl e, fm') \<Rightarrow> (Inl e, fm', c)
                  | (Inr v, fm') \<Rightarrow>
                      (Inr (Bound (BoundMetadataField el v)), fm', cache_store c cache_key v)))"
  using assms by (simp add: getattr_def Let_def)

text \<open>
  Claim C2. With caching enabled (a non-empty cache prefix) and \<open>name\<close> an element:
  when the cache holds a value under the element's key, \<^verbatim>\<open>__getattr__\<close> returns that
  value in a \<^verbatim>\<open>BoundMetadataField\<close> (the empty string as no value), whatever the
  instances are, and leaves the object and the cache as they were; when it holds none,
  the value is what \<^verbatim>\<open>_resolve_value\<close> finds, and it is written to the cache under the
  key, an empty value as the empty string. An exception of \<^verbatim>\<open>_resolve_value\<close> is passed
  on and nothing is written.
\<close>

theorem getattr_read_through:
  assumes "cache_prefix fm = Some p" and "p \<noteq> []"
    and "map_of (groups (meta (fm_metadata fm))) name = None"
    and "map_of (elements (meta (fm_metadata fm))) name = Some el"
  shows "(\<forall>v. c (p @ ''.'' @ name) = Some v \<and> v \<noteq> PNone \<longrightarrow>
            getattr depth rv fm c name =
              (Inr (Bound \<lparr>bf_field = el,
                            bf_value = (if truthy v then clean el v else PNone)\<rparr>), fm, c))
       \<and> (cache_get c (p @ ''.'' @ name) = PNone \<longrightarrow>
            getattr depth rv fm c name =
              (case resolve_value depth rv fm name of
                 (Inl e, fm') \<Rightarrow> (Inl e, fm', c)
               | (Inr v, fm') \<Rightarrow>
                   (Inr (Bound (BoundMetadataField el v)), fm',
                    c(p @ ''.'' @ name \<mapsto> (if truthy v then v else PStr [])))))"
proof -
  have key: "cache_key_of fm name = Some (p @ ''.'' @ name)"
    using assms(1,2) by (simp add: cache_key_of_def)
  note unfold = getattr_element[OF assms(3,4), of depth rv c]
  have hit: "getattr depth rv fm c name =
               (Inr (Bound \<lparr>bf_field = el,
                             bf_value = (if truthy v then clean el v else PNone)\<rparr>), fm, c)"
    if "c (p @ ''.'' @ name) = Some v" and "v \<noteq> PNone" for v
  proof -
    have "cache_get c (p @ ''.'' @ name) = v"
      using that(1) by (simp add: cache_get_def)
    then show ?thesis
      unfolding unfold using that(2)
      by (cases "truthy v") (simp_all add: key Let_def BoundMetadataField_def py_or_def)
  qed
  have miss: "getattr depth rv fm c name =
                (case resolve_value depth rv fm name of
                   (Inl e, fm') \<Rightarrow> (Inl e, fm', c)
                 | (Inr v, fm') \<Rightarrow>
                     (Inr (Bound (BoundMetadataField el v)), fm',
                      c(p @ ''.'' @ name \<mapsto> (if truthy v then v else PStr []))))"
    if "cache_get c (p @ ''.'' @ name) = PNone"
  proof -
    obtain r fm' where r: "resolve_value depth rv fm name = (r, fm')"
      by (cases "resolve_value depth rv fm name")
    show ?thesis
      unfolding unfold using that
      by (cases r) (simp_all add: r key Let_def cache_store_def cache_set_def py_or_def)
  qed
  from hit miss show ?thesis by blast
qed

lemma ex_resolve_title:
  "resolve_value (Suc 0) ex_rv ex_fm ''title'' =
     (Inr (PStr ''Home''),
      ex_fm\<lparr>instances_original := Generator [], instances_cache := [0, 1]\<rparr>)"
  by (simp add: for_instances_def nonempty_def ex_rv_def ex_fm_def)

theorem getattr_read_through_witness:
  "cache_prefix ex_fm = Some ''djangoseo.Meta.x'' \<and> ''djangoseo.Meta.x'' \<noteq> []
   \<and> map_of (groups (meta (fm_metadata ex_fm))) ''title'' = None
   \<and> map_of (elements (meta (fm_metadata ex_fm))) ''title'' = Some (ex_field 0 NotSet)
   \<and> getattr (Suc 0) ex_rv ex_fm [''djangoseo.Meta.x.title'' \<mapsto> PStr ''Cached''] ''title''
       = (Inr (Bound \<lparr>bf_field = ex_field 0 NotSet, bf_value = PStr ''Cached''\<rparr>), ex_fm,
          [''djangoseo.Meta.x.title'' \<mapsto> PStr ''Cached''])
   \<and> getattr (Suc 0) ex_rv ex_fm Map.empty ''title''
       = (Inr (Bound \<lparr>bf_field = ex_field 0 NotSet, bf_value = PStr ''Home''\<rparr>),
          ex_fm\<lparr>instances_original := Generator [], instances_cache := [0, 1]\<rparr>,
          [''djangoseo.Meta.x.title'' \<mapsto> PStr ''Home''])"
proof -
  have p: "cache_prefix ex_fm = Some ''djangoseo.Meta.x''" and ne: "''djangoseo.Meta.x'' \<noteq> []"
    by (simp_all add: ex_fm_def)
  have g: "map_of (groups (meta (fm_metadata ex_fm))) ''title'' = None"
    by (simp add: ex_fm_def ex_metadata_def ex_options_def)
  have e: "map_of (elements (meta (fm_metadata ex_fm))) ''title'' = Some (ex_field 0 NotSet)"
    by (simp add: ex_fm_def ex_metadata_def ex_options_def)
  note rt = getattr_read_through[OF p ne g e, of _ "Suc 0" ex_rv]
  have hit: "getattr (Suc 0) ex_rv ex_fm [''djangoseo.Meta.x.title'' \<mapsto> PStr ''Cached''] ''title''
       = (Inr (Bound \<lparr>bf_field = ex_field 0 NotSet, bf_value = PStr ''Cached''\<rparr>), ex_fm,
          [''djangoseo.Meta.x.title'' \<mapsto> PStr ''Cached''])"
    using rt[of "[''djangoseo.Meta.x.title'' \<mapsto> PStr ''Cached'']"]
    by (simp add: ex_field_def)
  have miss: "getattr (Suc 0) ex_rv ex_fm Map.empty ''title''
       = (Inr (Bound \<lparr>bf_field = ex_field 0 NotSet, bf_value = PStr ''Home''\<rparr>),
          ex_fm\<lparr>instances_original := Generator [], instances_cache := [0, 1]\<rparr>,
          [''djangoseo.Meta.x.title'' \<mapsto> PStr ''Home''])"
    using rt[of Map.empty, unfolded ex_resolve_title]
    by (simp add: cache_get_def BoundMetadataField_def ex_field_def del: resolve_value.simps)
  from p ne g e hit miss show ?thesis by simp
qed

section \<open>The signal callbacks\<close>

lemma get_or_create_same:
  "get_or_create (\<lambda>r. r = row) row table =
     (if row \<notin> set table then Inr (row, True, table @ [row])
      else if filter (\<lambda>r. r = row) table = [row] then Inr (row, False, table)
      else Inl MultipleObjectsReturned)"
proof (cases "filter (\<lambda>r. r = row) table")
  case Nil
  then have "row \<notin> set table" by (auto simp: filter_empty_conv)
  with Nil show ?thesis by (simp add: get_or_create_def)
next
  case (Cons a as)
  then have "a \<in> set (filter (\<lambda>r. r = row) table)" by simp
  then have a: "a = row" and mem: "row \<in> set table" by auto
  show ?thesis
    using Cons a mem by (cases as) (simp_all add: get_or_create_def)
qed

lemma handle_redirects_run:
  assumes "pk_truthy (t_pk instance)"
    and "t_url instance = Inr after"
    and "t_id instance = Value i"
    and "find (\<lambda>obj. t_id obj = Value i) stored = Some obj"
    and "t_url obj = Inr before"
    and "current_site = Inr s"
  shows "handle_redirects_callback stored current_site instance (table, log) =
           (if before = after then Inr (table, log)
            else if \<lparr>old_path = before, new_path = after, r_site = s, all_subdomains = True\<rparr>
                      \<notin> set table
            then Inr (table @ [\<lparr>old_path = before, new_path = after, r_site = s,
                                 all_subdomains = True\<rparr>], log)
            else if filter (\<lambda>r. r = \<lparr>old_path = before, new_path = after, r_site = s,
                                        all_subdomains = True\<rparr>) table
                      = [\<lparr>old_path = before, new_path = after, r_site = s,
                           all_subdomains = True\<rparr>]
            then Inr (table, log)
            else Inr (table, log @ [''Failed to create new redirect'']))"
  using assms
  by (simp add: handle_redirects_callback_def redirects_try_def get_or_create_same Let_def
      is_Exception_def)

text \<open>
  Claim C4 as stated fails. A stored page with primary key 0 whose URL changes from
  \<^verbatim>\<open>/old/\<close> to \<^verbatim>\<open>/new/\<close> has a primary key, and the callback returns at
  \<^verbatim>\<open>if not instance.pk\<close> with no redirect. And when \<^verbatim>\<open>Site.objects.get_current()\<close> raises,
  the URLs of page 8 differ and no redirect is created: the exception is logged.
\<close>

theorem handle_redirects_counterexample:
  "t_pk (ex_page0 ''/new/'') = Some 0
   \<and> find (\<lambda>obj. t_id obj = Value (Some 0)) [ex_page0 ''/old/''] = Some (ex_page0 ''/old/'')
   \<and> handle_redirects_callback [ex_page0 ''/old/''] (Inr ex_site) (ex_page0 ''/new/'') ([], [])
       = Inr ([], [])
   \<and> find (\<lambda>obj. t_id obj = Value (Some 8)) [ex_page ''/old/''] = Some (ex_page ''/old/'')
   \<and> handle_redirects_callback [ex_page ''/old/''] (Inl (OtherError ''ImproperlyConfigured''))
         (ex_page ''/new/'') ([], [])
       = Inr ([], [''Failed to create new redirect''])"
  by (simp add: handle_redirects_callback_def redirects_try_def pk_truthy_def ex_page0_def
      ex_page_def is_Exception_def)

text \<open>
  Claim C4, amended. For an instance whose primary key is set and not 0, whose stored row
  is found by its \<^verbatim>\<open>id\<close>, and for which both calls of \<^verbatim>\<open>get_absolute_url\<close> and
  \<^verbatim>\<open>Site.objects.get_current()\<close> return: when the URLs differ, the callback runs
  \<^verbatim>\<open>get_or_create\<close> for the redirect from the stored URL to the new URL on the current
  site with \<^verbatim>\<open>all_subdomains=True\<close>, so that row is in the table afterwards, appended
  when it was not there and the table unchanged when it was (only several equal rows make
  \<^verbatim>\<open>get_or_create\<close> fail, which is logged); when the URLs are equal the table and the
  log are unchanged.
\<close>

theorem handle_redirects_creates:
  assumes "pk_truthy (t_pk instance)"
    and "t_url instance = Inr after"
    and "t_id instance = Value i"
    and "find (\<lambda>obj. t_id obj = Value i) stored = Some obj"
    and "t_url obj = Inr before"
    and "current_site = Inr s"
  shows "(before \<noteq> after \<longrightarrow>
            (\<exists>table' log'.
               handle_redirects_callback stored current_site instance (table, log)
                 = Inr (table', log')
             \<and> \<lparr>old_path = before, new_path = after, r_site = s, all_subdomains = True\<rparr>
                 \<in> set table'
             \<and> table' =
                 (if \<lparr>old_path = before, new_path = after, r_site = s, all_subdomains = True\<rparr>
                       \<in> set table
                  then table
                  else table @ [\<lparr>old_path = before, new_path = after, r_site = s,
                                  all_subdomains = True\<rparr>])
             \<and> log' =
                 (if 1 < length (filter (\<lambda>r. r = \<lparr>old_path = before, new_path = after,
                                                    r_site = s, all_subdomains = True\<rparr>) table)
                  then log @ [''Failed to create new redirect''] else log)))
       \<and> (before = after \<longrightarrow>
            handle_redirects_callback stored current_site instance (table, log)
              = Inr (table, log))"
proof -
  let ?row = "\<lparr>old_path = before, new_path = after, r_site = s, all_subdomains = True\<rparr>"
  have dup: "1 < length (filter (\<lambda>r. r = ?row) table) \<longleftrightarrow>
               ?row \<in> set table \<and> filter (\<lambda>r. r = ?row) table \<noteq> [?row]"
  proof (cases "filter (\<lambda>r. r = ?row) table")
    case Nil
    then show ?thesis by (auto simp: filter_empty_conv)
  next
    case (Cons a as)
    then have "a \<in> set (filter (\<lambda>r. r = ?row) table)" by simp
    then have "a = ?row" "?row \<in> set table" by auto
    with Cons show ?thesis by (cases as) simp_all
  qed
  note run = handle_redirects_run[OF assms, of table log]
  show ?thesis
  proof (cases "before = after")
    case True
    then show ?thesis by (simp add: run)
  next
    case False
    show ?thesis
    proof (cases "?row \<in> set table")
      case False
      with \<open>before \<noteq> after\<close> dup show ?thesis by (simp add: run)
    next
      case True
      with \<open>before \<noteq> after\<close> dup show ?thesis
        by (cases "filter (\<lambda>r. r = ?row) table = [?row]") (simp_all add: run)
    qed
  qed
qed

theorem handle_redirects_creates_witness:
  "pk_truthy (t_pk (ex_page ''/new/''))
   \<and> t_id (ex_page ''/new/'') = Value (Some 8)
   \<and> find (\<lambda>obj. t_id obj = Value (Some 8)) [ex_other, ex_page ''/old/'']
       = Some (ex_page ''/old/'')
   \<and> handle_redirects_callback [ex_other, ex_page ''/old/''] (Inr ex_site) (ex_page ''/new/'')
       ([], [])
       = Inr ([\<lparr>old_path = ''/old/'', new_path = ''/new/'', r_site = ex_site,
                 all_subdomains = True\<rparr>], [])
   \<and> handle_redirects_callback [ex_other, ex_page ''/new/''] (Inr ex_site) (ex_page ''/new/'')
       ([], [])
       = Inr ([], [])"
proof -
  have pk: "pk_truthy (t_pk (ex_page ''/new/''))"
    by (simp add: pk_truthy_def ex_page_def)
  have i: "t_id (ex_page ''/new/'') = Value (Some 8)"
    by (simp add: ex_page_def)
  have u: "t_url (ex_page ''/new/'') = Inr ''/new/''" "t_url (ex_page ''/old/'') = Inr ''/old/''"
    by (simp_all add: ex_page_def)
  have f1: "find (\<lambda>obj. t_id obj = Value (Some 8)) [ex_other, ex_page ''/old/'']
              = Some (ex_page ''/old/'')"
    by (simp add: ex_page_def ex_other_def)
  have f2: "find (\<lambda>obj. t_id obj = Value (Some 8)) [ex_other, ex_page ''/new/'']
              = Some (ex_page ''/new/'')"
    by (simp add: ex_page_def ex_other_def)
  have "handle_redirects_callback [ex_other, ex_page ''/old/''] (Inr ex_site) (ex_page ''/new/'')
          ([], [])
        = Inr ([\<lparr>old_path = ''/old/'', new_path = ''/new/'', r_site = ex_site,
                  all_subdomains = True\<rparr>], [])"
    using handle_redirects_creates[where table="[]" and log="[]" and s=ex_site,
        OF pk u(1) i f1 u(2) refl] by auto
  moreover have "handle_redirects_callback [ex_other, ex_page ''/new/''] (Inr ex_site)
          (ex_page ''/new/'') ([], []) = Inr ([], [])"
    using handle_redirects_creates[where table="[]" and log="[]" and s=ex_site,
        OF pk u(1) i f2 u(1) refl] by simp
  ultimately show ?thesis using pk i f1 by simp
qed

text \<open>
  Claim C10 as stated fails: the handler is \<^verbatim>\<open>except Exception\<close>, so an exception that
  does not derive from \<^verbatim>\<open>Exception\<close> reaches the caller. Here \<^verbatim>\<open>get_absolute_url\<close> of
  the instance raises \<^verbatim>\<open>KeyboardInterrupt\<close>.
\<close>

theorem handle_redirects_raises_counterexample:
  "handle_redirects_callback [] (Inr ex_site)
     ((ex_page ''/new/'')\<lparr>t_url := Inl KeyboardInterrupt\<rparr>) ([], [])
   = Inl KeyboardInterrupt"
  by (simp add: handle_redirects_callback_def redirects_try_def pk_truthy_def ex_page_def
      is_Exception_def)

text \<open>
  Claim C10, amended. The callback never raises an exception that derives from
  \<^verbatim>\<open>Exception\<close>. For an instance whose primary key is \<^verbatim>\<open>None\<close> or 0 it returns at once
  with the table and the log as they were. Otherwise an exception of the \<^verbatim>\<open>try\<close> block
  that derives from \<^verbatim>\<open>Exception\<close> leaves the table as it was and adds one line to the
  log; one that does not (\<^verbatim>\<open>KeyboardInterrupt\<close>, \<^verbatim>\<open>SystemExit\<close>, \<^verbatim>\<open>GeneratorExit\<close>)
  reaches the caller; and when the block ends normally its table is kept and the log is
  unchanged.
\<close>

theorem handle_redirects_never_raises:
  "(\<forall>e. handle_redirects_callback stored current_site instance (table, log) = Inl e \<longrightarrow>
          \<not> is_Exception e)
   \<and> (\<not> pk_truthy (t_pk instance) \<longrightarrow>
        handle_redirects_callback stored current_site instance (table, log) = Inr (table, log))
   \<and> (\<forall>e. pk_truthy (t_pk instance)
            \<and> redirects_try stored current_site instance table = Inl e \<longrightarrow>
          handle_redirects_callback stored current_site instance (table, log)
            = (if is_Exception e
               then Inr (table, log @ [''Failed to create new redirect'']) else Inl e))
   \<and> (\<forall>table'. pk_truthy (t_pk instance)
            \<and> redirects_try stored current_site instance table = Inr table' \<longrightarrow>
          handle_redirects_callback stored current_site instance (table, log)
            = Inr (table', log))"
  by (cases "redirects_try stored current_site instance table")
    (auto simp: handle_redirects_callback_def)

theorem handle_redirects_never_raises_witness:
  "\<not> pk_truthy (t_pk ((ex_page ''/new/'')\<lparr>t_pk := None\<rparr>))
   \<and> handle_redirects_callback [] (Inr ex_site) ((ex_page ''/new/'')\<lparr>t_pk := None\<rparr>) ([], [])
       = Inr ([], [])
   \<and> pk_truthy (t_pk (ex_page ''/new/''))
   \<and> redirects_try [] (Inr ex_site) (ex_page ''/new/'') [] = Inl AttributeError
   \<and> is_Exception AttributeError
   \<and> handle_redirects_callback [] (Inr ex_site) (ex_page ''/new/'') ([], [])
       = Inr ([], [''Failed to create new redirect''])"
proof -
  have n: "\<not> pk_truthy (t_pk ((ex_page ''/new/'')\<lparr>t_pk := None\<rparr>))"
    by (simp add: pk_truthy_def)
  have pk: "pk_truthy (t_pk (ex_page ''/new/''))"
    by (simp add: pk_truthy_def ex_page_def)
  have r: "redirects_try [] (Inr ex_site) (ex_page ''/new/'') [] = Inl AttributeError"
    by (simp add: redirects_try_def ex_page_def)
  have a: "is_Exception AttributeError"
    by (simp add: is_Exception_def)
  have "handle_redirects_callback [] (Inr ex_site) ((ex_page ''/new/'')\<lparr>t_pk := None\<rparr>) ([], [])
          = Inr ([], [])"
    using handle_redirects_never_raises[of "[]" "Inr ex_site"
        "(ex_page ''/new/'')\<lparr>t_pk := None\<rparr>" "[]" "[]"] n by blast
  moreover have "handle_redirects_callback [] (Inr ex_site) (ex_page ''/new/'') ([], [])
          = Inr ([], [''Failed to create new redirect''])"
    using handle_redirects_never_raises[of "[]" "Inr ex_site" "ex_page ''/new/''" "[]" "[]"]
      pk r a by simp
  ultimately show ?thesis using n pk r a by simp
qed

text \<open>
  Claim C6. \<^verbatim>\<open>_delete_callback\<close> leaves in the table of its metadata model no row whose
  \<^verbatim>\<open>_content_type\<close> and \<^verbatim>\<open>_object_id\<close> are those of the instance, keeps every other
  row of that table, in order, and leaves the tables of all other models as they were.
\<close>

theorem delete_callback_exact:
  "filter (linked (t_content_type instance) (t_pk instance))
       (delete_callback model_class instance db model_class) = []
   \<and> filter (\<lambda>r. \<not> linked (t_content_type instance) (t_pk instance) r)
       (delete_callback model_class instance db model_class)
     = filter (\<lambda>r. \<not> linked (t_content_type instance) (t_pk instance) r) (db model_class)
   \<and> (\<forall>m. m \<noteq> model_class \<longrightarrow> delete_callback model_class instance db m = db m)"
  by (simp add: delete_callback_def linked_def)

theorem delete_callback_exact_witness:
  "''model'' \<noteq> ''instance''
   \<and> delete_callback ''instance'' (ex_page ''/b/'') ex_db ''instance'' = [ex_row 7 ''/a/'']
   \<and> delete_callback ''instance'' (ex_page ''/b/'') ex_db ''model'' = ex_db ''model''"
proof -
  have "delete_callback ''instance'' (ex_page ''/b/'') ex_db ''model'' = ex_db ''model''"
    using delete_callback_exact[of "ex_page ''/b/''" "''instance''" ex_db] by simp
  moreover have "delete_callback ''instance'' (ex_page ''/b/'') ex_db ''instance''
                   = [ex_row 7 ''/a/'']"
    by (simp add: delete_callback_def ex_db_def ex_row_def ex_page_def)
  ultimately show ?thesis by simp
qed

subsection \<open>create_metadata_instance\<close>

lemma same_keys_refl: "same_keys t t"
  by (simp add: same_keys_def)

lemma same_keys_trans: "same_keys a b \<Longrightarrow> same_keys b c \<Longrightarrow> same_keys a c"
  by (simp add: same_keys_def)

lemma same_keys_update: "same_keys t (t[i := (t ! i)\<lparr>md_path := u\<rparr>])"
  by (cases "i < length t") (auto simp: same_keys_def nth_list_update)

lemma same_keys_linked:
  "same_keys t t' \<Longrightarrow> j < length t \<Longrightarrow> linked ct pk (t' ! j) = linked ct pk (t ! j)"
  by (simp add: same_keys_def linked_def)

lemma same_keys_alive:
  "same_keys t t' \<Longrightarrow> j < length t \<Longrightarrow> alive objs (t' ! j) = alive objs (t ! j)"
  by (simp add: same_keys_def alive_def)

lemma path_loop_other:
  assumes "\<not> linked ct pk (table ! i)"
    and "objs (md_content_type (table ! i)) (md_object_id (table ! i)) = Some obj"
    and "t_url obj = Inr u"
  shows "path_loop objs ct pk (i # rest) table metadata =
           path_loop objs ct pk rest (table[i := (table ! i)\<lparr>md_path := u\<rparr>]) metadata"
  using assms by (auto simp: linked_def Let_def)

lemma path_loop_own:
  assumes "linked ct pk (table ! i)"
  shows "path_loop objs ct pk (i # rest) table metadata =
           path_loop objs ct pk rest table (Some i)"
  using assms by (auto simp: linked_def Let_def)

lemma path_loop_Finished:
  assumes "\<forall>i\<in>set idxs. i < length table"
    and "\<forall>i\<in>set idxs. \<not> linked ct pk (table ! i) \<longrightarrow> alive objs (table ! i)"
  shows "\<exists>m t. path_loop objs ct pk idxs table metadata = (Finished m, t)
     \<and> same_keys table t
     \<and> (\<forall>j<length table. linked ct pk (table ! j) \<or> j \<notin> set idxs \<longrightarrow> t ! j = table ! j)
     \<and> (\<forall>i\<in>set idxs. \<not> linked ct pk (table ! i) \<longrightarrow> repointed objs (t ! i))
     \<and> (m = metadata \<or> (\<exists>j\<in>set idxs. m = Some j \<and> linked ct pk (table ! j)))"
  using assms
proof (induction idxs arbitrary: table metadata)
  case Nil
  then show ?case by (simp add: same_keys_refl)
next
  case (Cons i rest)
  have i: "i < length table" using Cons.prems(1) by simp
  show ?case
  proof (cases "linked ct pk (table ! i)")
    case True
    have rest: "\<forall>i\<in>set rest. i < length table"
      "\<forall>i\<in>set rest. \<not> linked ct pk (table ! i) \<longrightarrow> alive objs (table ! i)"
      using Cons.prems by simp_all
    obtain m t where ih: "path_loop objs ct pk rest table (Some i) = (Finished m, t)"
      "same_keys table t"
      "\<forall>j<length table. linked ct pk (table ! j) \<or> j \<notin> set rest \<longrightarrow> t ! j = table ! j"
      "\<forall>i\<in>set rest. \<not> linked ct pk (table ! i) \<longrightarrow> repointed objs (t ! i)"
      "m = Some i \<or> (\<exists>j\<in>set rest. m = Some j \<and> linked ct pk (table ! j))"
      using Cons.IH[OF rest, of "Some i"] by blast
    have "path_loop objs ct pk (i # rest) table metadata = (Finished m, t)"
      using ih(1) by (simp only: path_loop_own[OF True])
    moreover have "\<forall>j<length table. linked ct pk (table ! j) \<or> j \<notin> set (i # rest)
                     \<longrightarrow> t ! j = table ! j"
      using ih(3) by auto
    moreover have "\<forall>k\<in>set (i # rest). \<not> linked ct pk (table ! k) \<longrightarrow> repointed objs (t ! k)"
      using ih(4) True by auto
    moreover have "m = metadata \<or> (\<exists>j\<in>set (i # rest). m = Some j \<and> linked ct pk (table ! j))"
      using ih(5) True by auto
    ultimately show ?thesis using ih(2) by blast
  next
    case False
    then have "alive objs (table ! i)" using Cons.prems(2) by simp
    then obtain obj u where obj:
      "objs (md_content_type (table ! i)) (md_object_id (table ! i)) = Some obj"
      "t_url obj = Inr u"
      by (auto simp: alive_def)
    define table1 where "table1 = table[i := (table ! i)\<lparr>md_path := u\<rparr>]"
    have sk: "same_keys table table1"
      unfolding table1_def by (rule same_keys_update)
    have len: "length table1 = length table" by (simp add: table1_def)
    have rest: "\<forall>k\<in>set rest. k < length table1"
      using Cons.prems(1) len by simp
    have rest2: "\<forall>k\<in>set rest. \<not> linked ct pk (table1 ! k) \<longrightarrow> alive objs (table1 ! k)"
      using Cons.prems sk by (simp add: same_keys_linked same_keys_alive)
    obtain m t where ih: "path_loop objs ct pk rest table1 metadata = (Finished m, t)"
      "same_keys table1 t"
      "\<forall>j<length table1. linked ct pk (table1 ! j) \<or> j \<notin> set rest \<longrightarrow> t ! j = table1 ! j"
      "\<forall>k\<in>set rest. \<not> linked ct pk (table1 ! k) \<longrightarrow> repointed objs (t ! k)"
      "m = metadata \<or> (\<exists>j\<in>set rest. m = Some j \<and> linked ct pk (table1 ! j))"
      using Cons.IH[OF rest rest2, of metadata] by blast
    have run: "path_loop objs ct pk (i # rest) table metadata = (Finished m, t)"
      using ih(1) path_loop_other[of ct pk table i objs obj u rest metadata, OF False obj]
      by (simp only: table1_def)
    have keys: "same_keys table t"
      using sk ih(2) by (rule same_keys_trans)
    have unchanged: "\<forall>j<length table. linked ct pk (table ! j) \<or> j \<notin> set (i # rest)
                       \<longrightarrow> t ! j = table ! j"
    proof (intro allI impI)
      fix j assume j: "j < length table"
        and c: "linked ct pk (table ! j) \<or> j \<notin> set (i # rest)"
      from c False have ne: "j \<noteq> i" by auto
      then have same: "table1 ! j = table ! j" by (simp add: table1_def)
      from c have "linked ct pk (table1 ! j) \<or> j \<notin> set rest" using same by auto
      moreover have "j < length table1" using j len by simp
      ultimately have "t ! j = table1 ! j" using ih(3) by blast
      with same show "t ! j = table ! j" by simp
    qed
    have rep: "\<forall>k\<in>set (i # rest). \<not> linked ct pk (table ! k) \<longrightarrow> repointed objs (t ! k)"
    proof (intro ballI impI)
      fix k assume k: "k \<in> set (i # rest)" and nl: "\<not> linked ct pk (table ! k)"
      show "repointed objs (t ! k)"
      proof (cases "k \<in> set rest")
        case True
        then have "k < length table" using Cons.prems(1) by simp
        then have "\<not> linked ct pk (table1 ! k)"
          using nl sk by (simp add: same_keys_linked)
        with True ih(4) show ?thesis by simp
      next
        case False
        with k have ki: "k = i" by simp
        have "i < length table1" "i \<notin> set rest" using False ki i len by simp_all
        then have "t ! i = table1 ! i" using ih(3) by blast
        also have "\<dots> = (table ! i)\<lparr>md_path := u\<rparr>" using i by (simp add: table1_def)
        finally show ?thesis using obj ki by (simp add: repointed_def)
      qed
    qed
    have met: "m = metadata \<or> (\<exists>j\<in>set (i # rest). m = Some j \<and> linked ct pk (table ! j))"
    proof -
      { fix j assume "j \<in> set rest" "m = Some j" "linked ct pk (table1 ! j)"
        moreover then have "j < length table" using Cons.prems(1) by simp
        ultimately have "\<exists>j\<in>set (i # rest). m = Some j \<and> linked ct pk (table ! j)"
          using sk by (auto simp: same_keys_linked) }
      with ih(5) show ?thesis by blast
    qed
    from run keys unchanged rep met show ?thesis by blast
  qed
qed

lemma get_instances_mem:
  "i \<in> set (get_instances sel path table) \<Longrightarrow>
     i < length table \<and> md_path (table ! i) = path \<and> sel (table ! i)"
  by (simp add: get_instances_def)

lemma filter_positions: "map ((!) t) (filter (\<lambda>j. P (t ! j)) [0..<length t]) = filter P t"
proof -
  have "filter P t = filter P (map ((!) t) [0..<length t])"
    by (simp only: map_nth)
  also have "\<dots> = map ((!) t) (filter (P \<circ> (!) t) [0..<length t])"
    by (simp only: filter_map)
  finally show ?thesis by (simp add: comp_def)
qed

lemma same_keys_positions:
  assumes "same_keys table t"
  shows "filter (\<lambda>j. linked ct pk (t ! j)) [0..<length t]
           = filter (\<lambda>j. linked ct pk (table ! j)) [0..<length table]"
proof -
  have len: "length t = length table" using assms by (simp add: same_keys_def)
  have "filter (\<lambda>j. linked ct pk (t ! j)) [0..<length table]
          = filter (\<lambda>j. linked ct pk (table ! j)) [0..<length table]"
    by (rule filter_cong) (simp_all add: same_keys_linked[OF assms])
  with len show ?thesis by simp
qed

lemma linked_positions_length:
  assumes "same_keys table t"
  shows "length (filter (\<lambda>j. linked ct pk (t ! j)) [0..<length t])
           = length (filter (linked ct pk) table)"
proof -
  have "length (filter (\<lambda>j. linked ct pk (table ! j)) [0..<length table])
          = length (map ((!) table) (filter (\<lambda>j. linked ct pk (table ! j)) [0..<length table]))"
    by simp
  also have "\<dots> = length (filter (linked ct pk) table)"
    by (simp only: filter_positions)
  finally show ?thesis by (simp only: same_keys_positions[OF assms])
qed

text \<open>
  Claim C5 as stated fails, in three ways. The only row is at \<^verbatim>\<open>/a/\<close> and belongs to
  object 7, and the page with primary key 8 and URL \<^verbatim>\<open>/a/\<close> is saved. When object 7 is
  gone, the loop returns from the function: the table is left as it was, with no row for
  the page. When \<^verbatim>\<open>get_absolute_url\<close> of object 7 raises, the exception reaches the
  caller and the table is left as it was. And when two rows, at other paths, are linked
  to the page, \<^verbatim>\<open>get_or_create\<close> raises \<^verbatim>\<open>MultipleObjectsReturned\<close> and no row gets the
  URL of the page.
\<close>

theorem create_metadata_instance_counterexample:
  "\<not> t_handled (ex_page ''/a/'') \<and> t_url (ex_page ''/a/'') = Inr ''/a/''
   \<and> create_metadata_instance (\<lambda>ct oid. None) (\<lambda>r. True) (ex_page ''/a/'') [ex_row 7 ''/a/'']
       = (None, [ex_row 7 ''/a/''])
   \<and> filter (linked (t_content_type (ex_page ''/a/'')) (t_pk (ex_page ''/a/'')))
        [ex_row 7 ''/a/''] = []
   \<and> create_metadata_instance
         (\<lambda>ct oid. Some (ex_other\<lparr>t_url := Inl (OtherError ''NoReverseMatch'')\<rparr>))
         (\<lambda>r. True) (ex_page ''/a/'') [ex_row 7 ''/a/'']
       = (Some (OtherError ''NoReverseMatch''), [ex_row 7 ''/a/''])
   \<and> create_metadata_instance ex_objs (\<lambda>r. True) (ex_page ''/a/'')
         [ex_row 8 ''/x/'', ex_row 8 ''/y/'']
       = (Some MultipleObjectsReturned, [ex_row 8 ''/x/'', ex_row 8 ''/y/''])"
  by (simp add: create_metadata_instance_def get_instances_def ex_page_def ex_row_def
      ex_other_def linked_def Let_def)

text \<open>
  Claim C5, amended. For an instance that is not marked as handled and has a URL, when
  every row found at the path that belongs to another object is alive (its content
  object exists and its \<^verbatim>\<open>get_absolute_url\<close> returns) and at most one row is linked to
  the instance, \<^verbatim>\<open>create_metadata_instance\<close> returns without an exception, a row linked
  to the instance's content type and primary key with the URL as its \<^verbatim>\<open>_path\<close> exists
  afterwards, and every row that was found at the path and belongs to another object
  still belongs to it and has the current URL of that object as its \<^verbatim>\<open>_path\<close>.
\<close>

theorem create_metadata_instance_links:
  assumes "\<not> t_handled instance"
    and "t_url instance = Inr path"
    and "\<forall>i\<in>set (get_instances sel path table).
           \<not> linked (t_content_type instance) (t_pk instance) (table ! i)
             \<longrightarrow> alive objs (table ! i)"
    and "length (filter (linked (t_content_type instance) (t_pk instance)) table) \<le> 1"
  shows "\<exists>table'.
           create_metadata_instance objs sel instance table = (None, table')
         \<and> (\<exists>r\<in>set table'. linked (t_content_type instance) (t_pk instance) r
                             \<and> md_path r = path)
         \<and> (\<forall>i\<in>set (get_instances sel path table).
               \<not> linked (t_content_type instance) (t_pk instance) (table ! i) \<longrightarrow>
                 i < length table'
               \<and> md_content_type (table' ! i) = md_content_type (table ! i)
               \<and> md_object_id (table' ! i) = md_object_id (table ! i)
               \<and> repointed objs (table' ! i))"
proof -
  let ?ct = "t_content_type instance" and ?pk = "t_pk instance"
  let ?idxs = "get_instances sel path table"
  have inrange: "\<forall>i\<in>set ?idxs. i < length table"
    by (simp add: get_instances_def)
  obtain m t where loop: "path_loop objs ?ct ?pk ?idxs table None = (Finished m, t)"
    and keys: "same_keys table t"
    and unchanged: "\<forall>j<length table. linked ?ct ?pk (table ! j) \<or> j \<notin> set ?idxs
                      \<longrightarrow> t ! j = table ! j"
    and rep: "\<forall>i\<in>set ?idxs. \<not> linked ?ct ?pk (table ! i) \<longrightarrow> repointed objs (t ! i)"
    and met: "m = None \<or> (\<exists>j\<in>set ?idxs. m = Some j \<and> linked ?ct ?pk (table ! j))"
    using path_loop_Finished[OF inrange assms(3), of None] by blast
  have len: "length t = length table" using keys by (simp add: same_keys_def)
  have others_t: "i < length t \<and> md_content_type (t ! i) = md_content_type (table ! i)
                  \<and> md_object_id (t ! i) = md_object_id (table ! i) \<and> repointed objs (t ! i)
                  \<and> \<not> linked ?ct ?pk (t ! i)"
    if "i \<in> set ?idxs" and "\<not> linked ?ct ?pk (table ! i)" for i
  proof -
    have i: "i < length table" using that(1) inrange by simp
    then show ?thesis
      using that rep keys len by (simp add: same_keys_def linked_def)
  qed
  show ?thesis
  proof (cases m)
    case (Some j)
    with met have j: "j \<in> set ?idxs" "linked ?ct ?pk (table ! j)" by auto
    then have jl: "j < length table" and jp: "md_path (table ! j) = path"
      using get_instances_mem[of j sel path table] by simp_all
    have tj: "t ! j = table ! j" using unchanged jl j(2) by simp
    have run: "create_metadata_instance objs sel instance table = (None, t)"
      using assms(1,2) loop Some by (simp add: create_metadata_instance_def Let_def)
    have "t ! j \<in> set t" using jl len by simp
    then have "\<exists>r\<in>set t. linked ?ct ?pk r \<and> md_path r = path"
      using tj j(2) jp by auto
    with run others_t show ?thesis by blast
  next
    case None
    let ?own = "filter (\<lambda>j. linked ?ct ?pk (t ! j)) [0..<length t]"
    have own_len: "length ?own \<le> 1"
      using assms(4) by (simp only: linked_positions_length[OF keys])
    show ?thesis
    proof (cases ?own)
      case Nil
      let ?new = "\<lparr>md_content_type = ?ct, md_object_id = ?pk, md_path = path, md_values = []\<rparr>"
      have run: "create_metadata_instance objs sel instance table = (None, t @ [?new])"
        using assms(1,2) loop None Nil by (simp add: create_metadata_instance_def Let_def)
      have "\<exists>r\<in>set (t @ [?new]). linked ?ct ?pk r \<and> md_path r = path"
        by (simp add: linked_def)
      moreover have "i < length (t @ [?new])
               \<and> md_content_type ((t @ [?new]) ! i) = md_content_type (table ! i)
               \<and> md_object_id ((t @ [?new]) ! i) = md_object_id (table ! i)
               \<and> repointed objs ((t @ [?new]) ! i)"
        if "i \<in> set ?idxs" and "\<not> linked ?ct ?pk (table ! i)" for i
        using others_t[OF that] by (simp add: nth_append)
      ultimately show ?thesis using run by blast
    next
      case (Cons j js)
      with own_len have js: "js = []" by simp
      have "j \<in> set ?own" using Cons by simp
      then have jl: "j < length t" and jo: "linked ?ct ?pk (t ! j)" by simp_all
      let ?t' = "t[j := (t ! j)\<lparr>md_path := path\<rparr>]"
      have run: "create_metadata_instance objs sel instance table = (None, ?t')"
        using assms(1,2) loop None Cons js by (simp add: create_metadata_instance_def Let_def)
      have "?t' ! j \<in> set ?t'" using jl by (simp only: nth_mem length_list_update)
      moreover have "linked ?ct ?pk (?t' ! j) \<and> md_path (?t' ! j) = path"
        using jl jo by (simp add: linked_def)
      ultimately have own: "\<exists>r\<in>set ?t'. linked ?ct ?pk r \<and> md_path r = path" by blast
      have "i < length ?t'
               \<and> md_content_type (?t' ! i) = md_content_type (table ! i)
               \<and> md_object_id (?t' ! i) = md_object_id (table ! i)
               \<and> repointed objs (?t' ! i)"
        if "i \<in> set ?idxs" and "\<not> linked ?ct ?pk (table ! i)" for i
      proof -
        note o = others_t[OF that]
        with jo have "i \<noteq> j" by auto
        with o show ?thesis by simp
      qed
      with own run show ?thesis by blast
    qed
  qed
qed

theorem create_metadata_instance_links_witness:
  "\<not> t_handled (ex_page ''/a/'') \<and> t_url (ex_page ''/a/'') = Inr ''/a/''
   \<and> get_instances (\<lambda>r. True) ''/a/'' [ex_row 7 ''/a/''] = [0]
   \<and> alive ex_objs (ex_row 7 ''/a/'')
   \<and> filter (linked (t_content_type (ex_page ''/a/'')) (t_pk (ex_page ''/a/'')))
        [ex_row 7 ''/a/''] = []
   \<and> create_metadata_instance ex_objs (\<lambda>r. True) (ex_page ''/a/'') [ex_row 7 ''/a/'']
       = (None, [ex_row 7 ''/moved/'', ex_row 8 ''/a/''])
   \<and> (\<exists>table'.
         create_metadata_instance ex_objs (\<lambda>r. True) (ex_page ''/a/'') [ex_row 7 ''/a/'']
           = (None, table')
       \<and> (\<exists>r\<in>set table'. linked 1 (Some 8) r \<and> md_path r = ''/a/'')
       \<and> repointed ex_objs (table' ! 0))"
proof -
  have h: "\<not> t_handled (ex_page ''/a/'')" and u: "t_url (ex_page ''/a/'') = Inr ''/a/''"
    by (simp_all add: ex_page_def)
  have g: "get_instances (\<lambda>r. True) ''/a/'' [ex_row 7 ''/a/''] = [0]"
    by (simp add: get_instances_def ex_row_def)
  have a: "alive ex_objs (ex_row 7 ''/a/'')"
    by (simp add: alive_def ex_objs_def ex_row_def ex_other_def)
  have f: "filter (linked (t_content_type (ex_page ''/a/'')) (t_pk (ex_page ''/a/'')))
             [ex_row 7 ''/a/''] = []"
    by (simp add: linked_def ex_page_def ex_row_def)
  have run: "create_metadata_instance ex_objs (\<lambda>r. True) (ex_page ''/a/'') [ex_row 7 ''/a/'']
               = (None, [ex_row 7 ''/moved/'', ex_row 8 ''/a/''])"
  proof -
    let ?ct = "t_content_type (ex_page ''/a/'')" and ?pk = "t_pk (ex_page ''/a/'')"
    have loop: "path_loop ex_objs ?ct ?pk [0] [ex_row 7 ''/a/''] None
                  = (Finished None, [ex_row 7 ''/moved/''])"
      by (simp add: ex_page_def ex_row_def ex_objs_def ex_other_def)
    have own: "\<not> linked ?ct ?pk (ex_row 7 ''/moved/'')"
      by (simp add: linked_def ex_page_def ex_row_def)
    have "create_metadata_instance ex_objs (\<lambda>r. True) (ex_page ''/a/'') [ex_row 7 ''/a/'']
            = (None, [ex_row 7 ''/moved/'']
                 @ [\<lparr>md_content_type = ?ct, md_object_id = ?pk, md_path = ''/a/'',
                      md_values = []\<rparr>])"
      unfolding create_metadata_instance_def Let_def
      by (simp add: h u g loop own del: path_loop.simps)
    then show ?thesis by (simp add: ex_page_def ex_row_def)
  qed
  have "\<exists>table'.
         create_metadata_instance ex_objs (\<lambda>r. True) (ex_page ''/a/'') [ex_row 7 ''/a/'']
           = (None, table')
       \<and> (\<exists>r\<in>set table'. linked 1 (Some 8) r \<and> md_path r = ''/a/'')
       \<and> repointed ex_objs (table' ! 0)"
    using create_metadata_instance_links[of "ex_page ''/a/''" "''/a/''" "\<lambda>r. True"
        "[ex_row 7 ''/a/'']" ex_objs, OF h u]
    by (simp add: g a f) (auto simp: ex_page_def linked_def ex_row_def)
  with h u g a f run show ?thesis by simp
qed

section \<open>The metaclass\<close>




lemma collect_elements_stable:
  "filter (\<lambda>x. creation_counter (snd x) = n) (collect_elements attrs)
     = filter (\<lambda>x. creation_counter (snd x) = n) (field_attrs attrs)"
  by (simp add: collect_elements_def sort_key_stable)












section \<open>Linked metadata\<close>

lemma objects_get_cases:
  "objects_get matches table =
     (case filter matches table of
        [] \<Rightarrow> Inl DoesNotExist
      | r # rs \<Rightarrow> if rs = [] then Inr r else Inl MultipleObjectsReturned)"
  by (simp add: objects_get_def split: list.splits)

lemma instance_lookup_cases:
  "instance_lookup table obj =
     (case filter (\<lambda>r. md_content_type r = t_content_type obj \<and> md_object_id r = t_pk obj)
             table of
        [] \<Rightarrow> Inr (UnsavedInstance obj)
      | r # rs \<Rightarrow> if rs = [] then Inr (Row r) else Inl MultipleObjectsReturned)"
  by (simp add: instance_lookup_def objects_get_cases split: list.splits)

lemma model_lookup_cases:
  "model_lookup table obj =
     (case filter (\<lambda>r. md_content_type r = t_content_type obj) table of
        [] \<Rightarrow> Inr (UnsavedModel (t_content_type obj))
      | r # rs \<Rightarrow> if rs = [] then Inr (Row r) else Inl MultipleObjectsReturned)"
  by (simp add: model_lookup_def objects_get_cases split: list.splits)

lemma instance_lookup_not_missing: "instance_lookup table obj \<noteq> Inl DoesNotExist"
  by (simp add: instance_lookup_cases split: list.splits)

lemma model_lookup_not_missing: "model_lookup table obj \<noteq> Inl DoesNotExist"
  by (simp add: model_lookup_cases split: list.splits)

lemma get_metadata_model_not_missing: "get_metadata_model registry name \<noteq> Inl DoesNotExist"
  by (simp add: get_metadata_model_def split: option.splits list.splits prod.splits)

lemma FormattedMetadata_init_error:
  "FormattedMetadata_init md5hex iri md insts path site_arg language subdomain = Inl e
     \<Longrightarrow> e = TypeError"
  by (auto simp: FormattedMetadata_init_def str_join_def split: if_splits)

lemma FormattedMetadata_init_returns:
  assumes "\<not> (use_cache (meta md) \<and> use_i18n (meta md) \<and> language = None)"
  shows "\<exists>fm. FormattedMetadata_init md5hex iri md insts path site_arg language subdomain = Inr fm
           \<and> fm_metadata fm = md \<and> instances_original fm = insts \<and> instances_cache fm = []"
proof (cases "use_cache (meta md)")
  case True
  with assms have "\<not> (use_i18n (meta md) \<and> language = None)" by simp
  then show ?thesis by (simp add: init_cached[OF True])
next
  case False
  then show ?thesis by (simp add: FormattedMetadata_init_def)
qed

lemma lookup_at_most_one:
  assumes "length (filter P table) \<le> 1"
  shows "(case filter P table of [] \<Rightarrow> a | r # rs \<Rightarrow> if rs = [] then b r else c)
           = (case filter P table of [] \<Rightarrow> a | r # rs \<Rightarrow> b r)"
  using assms by (cases "filter P table") simp_all

lemma get_linked_metadata_not_missing:
  "get_linked_metadata md5hex iri get_model registry db obj name site_arg language subdomain
     \<noteq> Inl DoesNotExist"
proof
  assume a: "get_linked_metadata md5hex iri get_model registry db obj name site_arg language
               subdomain = Inl DoesNotExist"
  show False
  proof (cases "get_metadata_model registry name")
    case (Inl e)
    with a get_metadata_model_not_missing[of registry name] show False
      by (simp add: get_linked_metadata_def)
  next
    case (Inr cls)
    show False
    proof (cases "mc_meta cls")
      case None
      with a Inr show False by (simp add: get_linked_metadata_def)
    next
      case (Some opts)
      define first where "first =
        (case get_model opts ''modelinstance'' of
           None \<Rightarrow> Inr []
         | Some InstanceMetadata \<Rightarrow>
             (case instance_lookup (db InstanceMetadata) obj of
                Inl e \<Rightarrow> Inl e
              | Inr instance_md \<Rightarrow> Inr [instance_md]))"
      have f: "first \<noteq> Inl DoesNotExist"
        using instance_lookup_not_missing
        by (auto simp: first_def split: option.splits sum.splits)
      show False
      proof (cases first)
        case (Inl e)
        with a Inr Some f show False
          by (simp add: get_linked_metadata_def first_def[symmetric])
      next
        case (Inr instances)
        note first = this
        define second where "second =
          (case get_model opts ''model'' of
             None \<Rightarrow> Inr instances
           | Some ModelMetadata \<Rightarrow>
               (case model_lookup (db ModelMetadata) obj of
                  Inl e \<Rightarrow> Inl e
                | Inr model_md \<Rightarrow> Inr (instances @ [model_md])))"
        have s: "second \<noteq> Inl DoesNotExist"
          using model_lookup_not_missing
          by (auto simp: second_def split: option.splits sum.splits)
        show False
        proof (cases second)
          case (Inl e)
          with a \<open>get_metadata_model registry name = Inr cls\<close> Some first s show False
            by (simp add: get_linked_metadata_def first_def[symmetric] second_def[symmetric])
        next
          case (Inr instances')
          with a \<open>get_metadata_model registry name = Inr cls\<close> Some first
          have "FormattedMetadata_init md5hex iri \<lparr>class_name = ''MetadataBase'', meta = opts\<rparr>
                  (Sequence instances') [] site_arg language subdomain = Inl DoesNotExist"
            by (simp add: get_linked_metadata_def first_def[symmetric] second_def[symmetric])
          then show False by (auto dest: FormattedMetadata_init_error)
        qed
      qed
    qed
  qed
qed

text \<open>
  Claim C7 as stated fails: the function does not always return. A name that is not in
  the registry makes \<^verbatim>\<open>_get_metadata_model\<close> raise; two rows linked to the object make
  \<^verbatim>\<open>objects.get\<close> raise \<^verbatim>\<open>MultipleObjectsReturned\<close>, which is not caught; and with
  \<^verbatim>\<open>use_cache\<close> and \<^verbatim>\<open>use_i18n\<close> set, the default language \<^verbatim>\<open>None\<close> makes
  \<^verbatim>\<open>'.'.join\<close> in \<^verbatim>\<open>FormattedMetadata.__init__\<close> raise \<^verbatim>\<open>TypeError\<close>. Each exception
  reaches the caller.
\<close>

theorem get_linked_metadata_counterexample:
  "get_linked_metadata ex_md5hex ex_iri ex_get_model ex_registry ex_linked_db (ex_page ''/b/'')
     (Some ''Other'') None None None
   = Inl (PyException (''Metadata definition with name '' @ quoted (CHR 0x22) ''Other''
            @ '' does not exist.'' @ [CHR 0x0A] @ ''Try using the name ''
            @ quoted (CHR 0x22) ''Meta'' @ '' or simply leaving it out altogether.''))
   \<and> get_linked_metadata ex_md5hex ex_iri ex_get_model ex_registry ex_dup_db (ex_page ''/b/'')
       None None None None
     = Inl MultipleObjectsReturned
   \<and> get_linked_metadata ex_md5hex ex_iri ex_get_model ex_cached_registry ex_linked_db
       (ex_page ''/b/'') None None None None
     = Inl TypeError"
  by (simp add: get_linked_metadata_def get_metadata_model_def ex_registry_def valid_names_def
      ex_cached_registry_def ex_linked_options_def ex_get_model_def ex_dup_db_def
      ex_linked_db_def instance_lookup_def model_lookup_def objects_get_def ex_row_def
      ex_page_def FormattedMetadata_init_def str_join_def prefix_bits_def)

text \<open>
  Claim C7, amended. \<^verbatim>\<open>get_linked_metadata\<close> never passes on \<^verbatim>\<open>DoesNotExist\<close>. When
  the metadata definition is found, each of the two lookups matches at most one row,
  and the language is a string if both \<^verbatim>\<open>use_cache\<close> and \<^verbatim>\<open>use_i18n\<close> are set, it
  returns a \<^verbatim>\<open>FormattedMetadata\<close> over the list that holds, for each metadata model
  the definition has, the stored row, or a fresh unsaved instance bound to the object
  (the instance model) or to its content type (the model model) when no row is stored.
\<close>

theorem get_linked_metadata_missing_rows:
  "get_linked_metadata md5hex iri get_model registry db obj name site_arg language subdomain
     \<noteq> Inl DoesNotExist
   \<and> (get_metadata_model registry name = Inr cls \<and> mc_meta cls = Some opts
      \<and> (\<forall>m. get_model opts ''modelinstance'' = Some m \<longrightarrow>
            length (filter (\<lambda>r. md_content_type r = t_content_type obj
                                 \<and> md_object_id r = t_pk obj) (db m)) \<le> 1)
      \<and> (\<forall>m. get_model opts ''model'' = Some m \<longrightarrow>
            length (filter (\<lambda>r. md_content_type r = t_content_type obj) (db m)) \<le> 1)
      \<and> \<not> (use_cache opts \<and> use_i18n opts \<and> language = None) \<longrightarrow>
        (\<exists>fm. get_linked_metadata md5hex iri get_model registry db obj name site_arg language
                 subdomain = Inr fm
             \<and> meta (fm_metadata fm) = opts
             \<and> instances_original fm = Sequence (expected_instances get_model opts db obj)
             \<and> instances_cache fm = []))"
proof -
  have returns: "\<exists>fm. get_linked_metadata md5hex iri get_model registry db obj name site_arg
                        language subdomain = Inr fm
             \<and> meta (fm_metadata fm) = opts
             \<and> instances_original fm = Sequence (expected_instances get_model opts db obj)
             \<and> instances_cache fm = []"
    if cls: "get_metadata_model registry name = Inr cls" and opts: "mc_meta cls = Some opts"
      and one: "\<forall>m. get_model opts ''modelinstance'' = Some m \<longrightarrow>
            length (filter (\<lambda>r. md_content_type r = t_content_type obj
                                 \<and> md_object_id r = t_pk obj) (db m)) \<le> 1"
      and one': "\<forall>m. get_model opts ''model'' = Some m \<longrightarrow>
            length (filter (\<lambda>r. md_content_type r = t_content_type obj) (db m)) \<le> 1"
      and lang: "\<not> (use_cache opts \<and> use_i18n opts \<and> language = None)"
  proof -
    let ?md = "\<lparr>class_name = ''MetadataBase'', meta = opts\<rparr>"
    let ?first = "case get_model opts ''modelinstance'' of
                    None \<Rightarrow> []
                  | Some m \<Rightarrow>
                      (case filter (\<lambda>r. md_content_type r = t_content_type obj
                                          \<and> md_object_id r = t_pk obj) (db m) of
                         [] \<Rightarrow> [UnsavedInstance obj]
                       | r # rs \<Rightarrow> [Row r])"
    have first: "(case get_model opts ''modelinstance'' of
                    None \<Rightarrow> Inr []
                  | Some InstanceMetadata \<Rightarrow>
                      (case instance_lookup (db InstanceMetadata) obj of
                         Inl e \<Rightarrow> Inl e
                       | Inr instance_md \<Rightarrow> Inr [instance_md])) = Inr ?first"
    proof (cases "get_model opts ''modelinstance''")
      case None
      then show ?thesis by simp
    next
      case (Some m)
      with one have "length (filter (\<lambda>r. md_content_type r = t_content_type obj
                                 \<and> md_object_id r = t_pk obj) (db m)) \<le> 1" by simp
      then show ?thesis
        by (cases "filter (\<lambda>r. md_content_type r = t_content_type obj
                                 \<and> md_object_id r = t_pk obj) (db m)")
          (simp_all add: Some instance_lookup_cases)
    qed
    have second: "(case get_model opts ''model'' of
                     None \<Rightarrow> Inr ?first
                   | Some ModelMetadata \<Rightarrow>
                       (case model_lookup (db ModelMetadata) obj of
                          Inl e \<Rightarrow> Inl e
                        | Inr model_md \<Rightarrow> Inr (?first @ [model_md])))
                  = Inr (expected_instances get_model opts db obj)"
    proof (cases "get_model opts ''model''")
      case None
      then show ?thesis by (simp add: expected_instances_def)
    next
      case (Some m)
      with one' have "length (filter (\<lambda>r. md_content_type r = t_content_type obj) (db m)) \<le> 1"
        by simp
      then show ?thesis
        by (cases "filter (\<lambda>r. md_content_type r = t_content_type obj) (db m)")
          (simp_all add: Some model_lookup_cases expected_instances_def)
    qed
    have run: "get_linked_metadata md5hex iri get_model registry db obj name site_arg language
                 subdomain
               = FormattedMetadata_init md5hex iri ?md
                   (Sequence (expected_instances get_model opts db obj)) [] site_arg language
                   subdomain"
      unfolding get_linked_metadata_def by (simp only: cls opts first second sum.case option.case)
    have "\<not> (use_cache (meta ?md) \<and> use_i18n (meta ?md) \<and> language = None)"
      using lang by simp
    from FormattedMetadata_init_returns[OF this, of md5hex iri
        "Sequence (expected_instances get_model opts db obj)" "[]" site_arg subdomain]
    show ?thesis unfolding run by auto
  qed
  with get_linked_metadata_not_missing[of md5hex iri get_model registry db obj name site_arg
      language subdomain]
  show ?thesis by blast
qed

theorem get_linked_metadata_missing_rows_witness:
  "get_metadata_model ex_cached_registry None
     = Inr \<lparr>mc_name = ''Meta'', mc_attrs = [],
            mc_meta = Some (ex_linked_options\<lparr>use_cache := True, use_i18n := True\<rparr>)\<rparr>
   \<and> filter (\<lambda>r. md_content_type r = t_content_type (ex_page ''/b/'')
                  \<and> md_object_id r = t_pk (ex_page ''/b/'')) (ex_linked_db ''instance'') = []
   \<and> filter (\<lambda>r. md_content_type r = t_content_type (ex_page ''/b/'')) (ex_linked_db ''model'')
       = []
   \<and> use_cache (ex_linked_options\<lparr>use_cache := True, use_i18n := True\<rparr>)
   \<and> use_i18n (ex_linked_options\<lparr>use_cache := True, use_i18n := True\<rparr>)
   \<and> (\<exists>fm. get_linked_metadata ex_md5hex ex_iri ex_get_model ex_cached_registry ex_linked_db
              (ex_page ''/b/'') None None (Some ''en'') None = Inr fm
          \<and> instances_original fm
              = Sequence [UnsavedInstance (ex_page ''/b/''), UnsavedModel 1])
   \<and> get_linked_metadata ex_md5hex ex_iri ex_get_model ex_cached_registry ex_linked_db
        (ex_page ''/a/'') None None (Some ''en'') None
      = Inr \<lparr>fm_metadata = \<lparr>class_name = ''MetadataBase'',
                             meta = ex_linked_options\<lparr>use_cache := True, use_i18n := True\<rparr>\<rparr>,
             cache_prefix = Some ''djangoseo.MetadataBase.d41d8cd98f00b204e9800998ecf8427e.en'',
             instances_original = Sequence [UnsavedInstance (ex_page ''/a/''), UnsavedModel 1],
             instances_cache = []\<rparr>"
proof -
  let ?opts = "ex_linked_options\<lparr>use_cache := True, use_i18n := True\<rparr>"
  have r: "get_metadata_model ex_cached_registry None
     = Inr \<lparr>mc_name = ''Meta'', mc_attrs = [], mc_meta = Some ?opts\<rparr>"
    by (simp add: get_metadata_model_def ex_cached_registry_def)
  have f1: "filter (\<lambda>r. md_content_type r = t_content_type (ex_page url)
                  \<and> md_object_id r = t_pk (ex_page url)) (ex_linked_db ''instance'') = []"
    for url
    by (simp add: ex_linked_db_def ex_row_def ex_page_def)
  have f2: "filter (\<lambda>r. md_content_type r = t_content_type (ex_page url))
              (ex_linked_db ''model'') = []" for url
    by (simp add: ex_linked_db_def)
  have c: "use_cache ?opts" "use_i18n ?opts"
    by (simp_all add: ex_linked_options_def)
  have m: "ex_get_model ?opts ''modelinstance'' = Some ''instance''"
    "ex_get_model ?opts ''model'' = Some ''model''"
    by (simp_all add: ex_get_model_def)
  have e: "expected_instances ex_get_model ?opts ex_linked_db (ex_page url)
             = [UnsavedInstance (ex_page url), UnsavedModel 1]" for url
    by (simp add: expected_instances_def m f1 f2) (simp add: ex_page_def)
  have first: "\<exists>fm. get_linked_metadata ex_md5hex ex_iri ex_get_model ex_cached_registry
              ex_linked_db (ex_page ''/b/'') None None (Some ''en'') None = Inr fm
          \<and> instances_original fm
              = Sequence [UnsavedInstance (ex_page ''/b/''), UnsavedModel 1]"
    using get_linked_metadata_missing_rows[of ex_md5hex ex_iri ex_get_model ex_cached_registry
        ex_linked_db "ex_page ''/b/''" None None "Some ''en''" None
        "\<lparr>mc_name = ''Meta'', mc_attrs = [], mc_meta = Some ?opts\<rparr>" ?opts]
    by (auto simp: r m f1 f2 e)
  have second: "get_linked_metadata ex_md5hex ex_iri ex_get_model ex_cached_registry ex_linked_db
        (ex_page ''/a/'') None None (Some ''en'') None
      = Inr \<lparr>fm_metadata = \<lparr>class_name = ''MetadataBase'', meta = ?opts\<rparr>,
             cache_prefix = Some ''djangoseo.MetadataBase.d41d8cd98f00b204e9800998ecf8427e.en'',
             instances_original = Sequence [UnsavedInstance (ex_page ''/a/''), UnsavedModel 1],
             instances_cache = []\<rparr>"
    by (simp add: get_linked_metadata_def r ex_get_model_def instance_lookup_cases
        model_lookup_cases f1 f2 FormattedMetadata_init_def str_join_def prefix_bits_def
        hexpath_of_def ex_linked_options_def ex_md5hex_def)
      (simp add: ex_page_def)
  from r f1[of "''/b/''"] f2[of "''/b/''"] c first second show ?thesis by simp
qed

end
